theory Spec2Isabelle
  imports Main "HOL-Library.Sublist"
begin

section \<open>Values\<close>

text \<open>
  The module \<^verbatim>\<open>smawe_pyppeteer_tool.py\<close> marshals keyword arguments and sequences calls
  into the pyppeteer library. Launch options are \<^verbatim>\<open>None\<close>, booleans, integers or strings
  (the docstring of \<^verbatim>\<open>__init__\<close> types them \<^verbatim>\<open>bool\<close> and \<^verbatim>\<open>str\<close>); page-level values
  also include dictionaries, opaque library objects (browser, page, request handles),
  functions, and response objects with the three attributes the code reads.
\<close>

type_synonym addr = nat

datatype scalar = SNone | SBool bool | SInt int | SStr string

datatype pyval =
    Scalar scalar
  | PDict "(string \<times> pyval) list"
  | PObj nat
  | PFun bool nat
  | PResp pyval pyval pyval

text \<open>
  \<open>PFun c i\<close> is the function object \<open>i\<close>; \<open>c\<close> says whether it was declared with
  \<^verbatim>\<open>async def\<close>. \<open>PResp status request headers\<close> is an object with exactly these
  attributes.
\<close>

abbreviation PNone :: pyval where "PNone \<equiv> Scalar SNone"
abbreviation PBool :: "bool \<Rightarrow> pyval" where "PBool b \<equiv> Scalar (SBool b)"
abbreviation PInt :: "int \<Rightarrow> pyval" where "PInt i \<equiv> Scalar (SInt i)"
abbreviation PStr :: "string \<Rightarrow> pyval" where "PStr s \<equiv> Scalar (SStr s)"

datatype exn =
    KeyError string
  | TypeError string
  | AttributeError string
  | PyppeteerTimeoutError string
  | LibraryError string string

text \<open>Python's truth value testing (\<^verbatim>\<open>if x:\<close>, \<^verbatim>\<open>bool(x)\<close>, \<^verbatim>\<open>not x\<close>).\<close>

fun truthy_scalar :: "scalar \<Rightarrow> bool" where
  "truthy_scalar SNone = False"
| "truthy_scalar (SBool b) = b"
| "truthy_scalar (SInt i) = (i \<noteq> 0)"
| "truthy_scalar (SStr s) = (s \<noteq> [])"

fun truthy :: "pyval \<Rightarrow> bool" where
  "truthy (Scalar s) = truthy_scalar s"
| "truthy (PDict d) = (d \<noteq> [])"
| "truthy (PObj _) = True"
| "truthy (PFun _ _) = True"
| "truthy (PResp _ _ _) = True"

text \<open>\<^verbatim>\<open>str(x)\<close>, as an f-string applies it to a scalar.\<close>

fun dec_nat :: "nat \<Rightarrow> string" where
  "dec_nat n =
     (if n < 10 then [''0123456789'' ! n]
      else dec_nat (n div 10) @ [''0123456789'' ! (n mod 10)])"

declare dec_nat.simps [simp del]

definition str_int :: "int \<Rightarrow> string" where
  "str_int i = (if i < 0 then CHR ''-'' # dec_nat (nat (- i)) else dec_nat (nat i))"

fun py_str :: "scalar \<Rightarrow> string" where
  "py_str SNone = ''None''"
| "py_str (SBool b) = (if b then ''True'' else ''False'')"
| "py_str (SInt i) = str_int i"
| "py_str (SStr s) = s"

text \<open>\<^verbatim>\<open>kwargs.pop(key, default)\<close> on an entry that is present (\<open>Some\<close>) or not.\<close>

definition pop :: "'a option \<Rightarrow> 'a \<Rightarrow> 'a" where
  "pop entry dflt = (case entry of Some v \<Rightarrow> v | None \<Rightarrow> dflt)"

text \<open>\<^verbatim>\<open>kwargs.pop(key)\<close> without a default raises \<^verbatim>\<open>KeyError\<close> on a missing key.\<close>

definition pop_required :: "string \<Rightarrow> 'a option \<Rightarrow> exn + 'a" where
  "pop_required key entry = (case entry of Some v \<Rightarrow> Inr v | None \<Rightarrow> Inl (KeyError key))"


section \<open>The world: list and dictionary objects, library calls, standard output\<close>

text \<open>The keyword arguments \<^verbatim>\<open>__init__\<close> passes to \<^verbatim>\<open>pyppeteer.launch\<close>; \<open>args\<close> is
  a reference to a list object.\<close>

record launch_kwargs =
  headless :: scalar
  executablePath :: scalar
  args :: addr
  userDataDir :: scalar
  autoClose :: scalar

datatype handler = DefaultHandler | UserHandler pyval

text \<open>The calls the module makes into pyppeteer and asyncio, with their arguments.\<close>

datatype call =
    AwaitLauncher launch_kwargs
  | NewPage pyval
  | SetUserAgent pyval pyval
  | SetViewport pyval pyval pyval
  | EvaluateOnNewDocument pyval string
  | SetRequestInterception pyval bool
  | On_request pyval handler
  | Goto pyval pyval int string
  | Sleep pyval
  | WaitFor pyval pyval
  | Evaluate pyval pyval
  | Cookies pyval
  | Content pyval
  | ClosePage pyval
  | CloseBrowser pyval
  | Headers pyval
  | Continue pyval

record world =
  lists :: "addr \<Rightarrow> string list"
  next_list :: addr
  dicts :: "addr \<Rightarrow> (string \<Rightarrow> pyval option)"
  next_dict :: addr
  trace :: "call list"
  stdout :: "pyval list"

text \<open>
  The library is a parameter: \<open>respond env history c\<close> is what the call \<open>c\<close> returns or
  raises after the calls \<open>history\<close>. \<open>SCRIPTS\<close> is the list \<^verbatim>\<open>pretend.SCRIPTS\<close>.
\<close>

record env =
  respond :: "call list \<Rightarrow> call \<Rightarrow> exn + pyval"
  SCRIPTS :: "string list"

definition new_list :: "string list \<Rightarrow> world \<Rightarrow> addr \<times> world" where
  "new_list xs w =
     (next_list w, w\<lparr>lists := (lists w)(next_list w := xs), next_list := Suc (next_list w)\<rparr>)"

definition new_dict :: "world \<Rightarrow> addr \<times> world" where
  "new_dict w =
     (next_dict w, w\<lparr>dicts := (dicts w)(next_dict w := Map.empty), next_dict := Suc (next_dict w)\<rparr>)"

definition list_append :: "addr \<Rightarrow> string \<Rightarrow> world \<Rightarrow> world" where
  "list_append a x w = w\<lparr>lists := (lists w)(a := lists w a @ [x])\<rparr>"

text \<open>\<^verbatim>\<open>try: xs.remove(x) except ValueError: pass\<close> deletes the first occurrence, if any.\<close>

definition list_remove :: "addr \<Rightarrow> string \<Rightarrow> world \<Rightarrow> world" where
  "list_remove a x w = w\<lparr>lists := (lists w)(a := remove1 x (lists w a))\<rparr>"


section \<open>\<^verbatim>\<open>PyppeteerRequest.__init__\<close>\<close>

text \<open>The recognised keys of \<^verbatim>\<open>**kwargs\<close>; \<open>None\<close> is a key the caller did not pass.
  \<open>kw_args\<close> is \<^verbatim>\<open>None\<close> or a reference to the caller's list.\<close>

record init_kwargs =
  kw_headless :: "scalar option"
  kw_path :: "scalar option"
  kw_user_data_dir :: "scalar option"
  kw_auto_close :: "scalar option"
  kw_window_width :: "scalar option"
  kw_window_height :: "scalar option"
  kw_args :: "addr option option"
  kw_enabled_maximize :: "scalar option"

record controller =
  launcher :: launch_kwargs
  initialized :: bool
  browser :: pyval
  enabled_interception_flag :: bool
  meta_data_ref :: addr

definition PyppeteerRequest :: "init_kwargs \<Rightarrow> world \<Rightarrow> controller \<times> world" where
  "PyppeteerRequest kwargs w0 =
     (let headless0 = pop (kw_headless kwargs) SNone;
          path = pop (kw_path kwargs) SNone;
          user_data_dir = pop (kw_user_data_dir kwargs) SNone;
          auto_close0 = pop (kw_auto_close kwargs) (SBool True);
          window_width = pop (kw_window_width kwargs) SNone;
          window_height = pop (kw_window_height kwargs) SNone;
          args0 = pop (kw_args kwargs) None;
          enabled_maximize = pop (kw_enabled_maximize kwargs) (SBool True);
          auto_close = (if truthy_scalar headless0 then SBool True else auto_close0);
          (args1, w1) = (case args0 of
                            None \<Rightarrow> new_list [''--disable-infobars''] w0
                          | Some a \<Rightarrow> (a, list_append a ''--disable-infobars'' w0));
          w2 = (if truthy_scalar enabled_maximize
                then list_append args1 ''--start-maximized'' w1 else w1);
          w3 = (if truthy_scalar window_width \<and> truthy_scalar window_height
                then list_remove args1 ''--start-maximized''
                       (list_append args1
                          (''--window-size='' @ py_str window_width @ '','' @ py_str window_height)
                          w2)
                else w2);
          (m, w4) = new_dict w3
      in (\<lparr>launcher = \<lparr>headless = headless0, executablePath = path, args = args1,
                         userDataDir = user_data_dir, autoClose = auto_close\<rparr>,
           initialized = False, browser = PNone, enabled_interception_flag = False,
           meta_data_ref = m\<rparr>, w4))"

text \<open>The launch-argument list as the launcher will read it: the list object passed as
  \<^verbatim>\<open>args=\<close>.\<close>

definition launch_args :: "controller \<times> world \<Rightarrow> string list" where
  "launch_args cw = lists (snd cw) (args (launcher (fst cw)))"

definition is_window_size :: "string \<Rightarrow> bool" where
  "is_window_size s = prefix ''--window-size='' s"

definition is_maximize :: "string \<Rightarrow> bool" where
  "is_maximize s = (s = ''--start-maximized'')"

text \<open>What the caller's list held before the call (nothing when no list was passed).\<close>

definition caller_args :: "init_kwargs \<Rightarrow> world \<Rightarrow> string list" where
  "caller_args kwargs w = (case pop (kw_args kwargs) None of None \<Rightarrow> [] | Some a \<Rightarrow> lists w a)"

definition window_pair :: "init_kwargs \<Rightarrow> bool" where
  "window_pair kwargs =
     (truthy_scalar (pop (kw_window_width kwargs) SNone) \<and>
      truthy_scalar (pop (kw_window_height kwargs) SNone))"

definition window_size_arg :: "init_kwargs \<Rightarrow> string" where
  "window_size_arg kwargs =
     ''--window-size='' @ py_str (pop (kw_window_width kwargs) SNone) @ '','' @
       py_str (pop (kw_window_height kwargs) SNone)"

definition maximize_on :: "init_kwargs \<Rightarrow> bool" where
  "maximize_on kwargs = truthy_scalar (pop (kw_enabled_maximize kwargs) (SBool True))"


section \<open>Sequencing calls that may raise\<close>

text \<open>
  A method body runs on the controller (\<^verbatim>\<open>self\<close>) and the world, and either returns a
  value (\<open>Inr\<close>) or raises (\<open>Inl\<close>); \<open>seq\<close> runs the rest only after a normal return.
\<close>

type_synonym state = "controller \<times> world"
type_synonym 'a act = "state \<Rightarrow> (exn + 'a) \<times> state"

definition ret :: "'a \<Rightarrow> 'a act" where
  "ret x = (\<lambda>s. (Inr x, s))"

definition raise :: "exn \<Rightarrow> 'a act" where
  "raise e = (\<lambda>s. (Inl e, s))"

definition lift :: "exn + 'a \<Rightarrow> 'a act" where
  "lift r = (\<lambda>s. (r, s))"

definition seq :: "'a act \<Rightarrow> ('a \<Rightarrow> 'b act) \<Rightarrow> 'b act" where
  "seq m f = (\<lambda>s. case m s of (Inl e, s') \<Rightarrow> (Inl e, s') | (Inr a, s') \<Rightarrow> f a s')"

definition get_self :: "controller act" where
  "get_self = (\<lambda>s. (Inr (fst s), s))"

text \<open>A library call: the environment answers, and the call is recorded.\<close>

definition lib :: "env \<Rightarrow> call \<Rightarrow> pyval act" where
  "lib env c = (\<lambda>s. (respond env (trace (snd s)) c,
                       (fst s, (snd s)\<lparr>trace := trace (snd s) @ [c]\<rparr>)))"

definition print :: "pyval \<Rightarrow> unit act" where
  "print v = (\<lambda>s. (Inr (), (fst s, (snd s)\<lparr>stdout := stdout (snd s) @ [v]\<rparr>)))"

text \<open>\<^verbatim>\<open>self._meta_data[key] = v\<close>\<close>

definition set_meta_data :: "string \<Rightarrow> pyval \<Rightarrow> unit act" where
  "set_meta_data key v =
     (\<lambda>s. (Inr (), (fst s, (snd s)\<lparr>dicts := (dicts (snd s))
                (meta_data_ref (fst s) := (dicts (snd s) (meta_data_ref (fst s)))(key \<mapsto> v))\<rparr>)))"

text \<open>Attribute access on the value that \<^verbatim>\<open>page.goto\<close> returned.\<close>

fun attr :: "pyval \<Rightarrow> string \<Rightarrow> exn + pyval" where
  "attr (PResp st rq hs) name =
     (if name = ''status'' then Inr st
      else if name = ''request'' then Inr rq
      else if name = ''headers'' then Inr hs
      else Inl (AttributeError name))"
| "attr _ name = Inl (AttributeError name)"


section \<open>\<^verbatim>\<open>PyppeteerResponse\<close>\<close>

text \<open>The response object keeps a reference to the dictionary it was given.\<close>

record response =
  meta_data :: addr

text \<open>\<^verbatim>\<open>self.meta_data = kwargs.pop("meta_data", {})\<close>; the fresh dictionary is only
  observable when the key is missing.\<close>

definition PyppeteerResponse :: "addr option \<Rightarrow> response act" where
  "PyppeteerResponse entry =
     (case entry of
        Some a \<Rightarrow> ret \<lparr>meta_data = a\<rparr>
      | None \<Rightarrow> (\<lambda>s. case new_dict (snd s) of (a, w) \<Rightarrow> (Inr \<lparr>meta_data = a\<rparr>, (fst s, w))))"

text \<open>\<^verbatim>\<open>self.meta_data.get(key)\<close>\<close>

definition dict_get :: "world \<Rightarrow> response \<Rightarrow> string \<Rightarrow> pyval" where
  "dict_get w r key = (case dicts w (meta_data r) key of Some v \<Rightarrow> v | None \<Rightarrow> PNone)"

definition get_text :: "world \<Rightarrow> response \<Rightarrow> pyval" where
  "get_text w r = dict_get w r ''text''"

definition get_cookies :: "world \<Rightarrow> response \<Rightarrow> pyval" where
  "get_cookies w r = dict_get w r ''cookies''"

definition get_headers :: "world \<Rightarrow> response \<Rightarrow> pyval" where
  "get_headers w r = dict_get w r ''headers''"

definition get_status :: "world \<Rightarrow> response \<Rightarrow> pyval" where
  "get_status w r = dict_get w r ''status''"

definition get_request :: "world \<Rightarrow> response \<Rightarrow> pyval" where
  "get_request w r = dict_get w r ''request''"

definition get_script_result :: "world \<Rightarrow> response \<Rightarrow> pyval" where
  "get_script_result w r = dict_get w r ''script_result''"


section \<open>The methods of \<^verbatim>\<open>PyppeteerRequest\<close>\<close>

definition init :: "env \<Rightarrow> unit act" where
  "init env =
     (\<lambda>s. if \<not> initialized (fst s)
          then seq (lib env (AwaitLauncher (launcher (fst s))))
                 (\<lambda>b s'. (Inr (), ((fst s')\<lparr>browser := b, initialized := True\<rparr>, snd s'))) s
          else (Inr (), s))"

definition enabled_interception :: "bool \<Rightarrow> unit act" where
  "enabled_interception v = (\<lambda>s. (Inr (), ((fst s)\<lparr>enabled_interception_flag := v\<rparr>, snd s)))"

definition handle_request :: "env \<Rightarrow> pyval \<Rightarrow> unit act" where
  "handle_request env request =
     seq (lib env (Headers request)) (\<lambda>h.
     seq (print h) (\<lambda>_.
     seq (lib env (Continue request)) (\<lambda>_. ret ())))"

definition close :: "env \<Rightarrow> pyval \<Rightarrow> unit act" where
  "close env page =
     seq (lib env (ClosePage page)) (\<lambda>_.
     seq get_self (\<lambda>self.
     seq (lib env (CloseBrowser (browser self))) (\<lambda>_.
     (\<lambda>s. (Inr (), ((fst s)\<lparr>initialized := False\<rparr>, snd s))))))"

text \<open>The keys \<^verbatim>\<open>request\<close> pops from its \<^verbatim>\<open>**kwargs\<close>.\<close>

record request_kwargs =
  rk_delay :: "pyval option"
  rk_wait_for :: "pyval option"
  rk_page_width :: "pyval option"
  rk_page_height :: "pyval option"
  rk_pretend :: "pyval option"
  rk_enabled_interception :: "pyval option"
  rk_script :: "pyval option"

definition default_ua :: string where
  "default_ua = ''Mozilla/5.0 (Windows NT 10.0; Win64; x64) AppleWebKit/537.36 (KHTML, like Gecko) Chrome/116.0.0.0Safari/537.36''"

text \<open>Lines 96-98: \<^verbatim>\<open>for script in _pretend.SCRIPTS: await page.evaluateOnNewDocument(script)\<close>\<close>

fun inject :: "env \<Rightarrow> pyval \<Rightarrow> string list \<Rightarrow> unit act" where
  "inject env page [] = ret ()"
| "inject env page (script # rest) =
     seq (lib env (EvaluateOnNewDocument page script)) (\<lambda>_. inject env page rest)"

definition iscoroutinefunction :: "pyval \<Rightarrow> bool" where
  "iscoroutinefunction f = (case f of PFun c _ \<Rightarrow> c | _ \<Rightarrow> False)"

text \<open>Lines 101-109: arming request interception.\<close>

definition intercept :: "env \<Rightarrow> pyval \<Rightarrow> pyval \<Rightarrow> unit act" where
  "intercept env page callable =
     seq get_self (\<lambda>self.
     if enabled_interception_flag self then
       seq (lib env (SetRequestInterception page True)) (\<lambda>_.
       seq (if \<not> truthy callable
            then seq (lib env (On_request page DefaultHandler)) (\<lambda>_. ret ())
            else ret ()) (\<lambda>_.
       if iscoroutinefunction callable
       then seq (lib env (On_request page (UserHandler callable))) (\<lambda>_. ret ())
       else raise (TypeError ''callable must be coroutine function.'')))
     else ret ())"

text \<open>Lines 111-115: navigation; only pyppeteer's timeout error is caught.\<close>

definition synthetic_response :: pyval where
  "synthetic_response = PResp (PInt 504) PNone (PDict [])"

definition navigate :: "env \<Rightarrow> pyval \<Rightarrow> pyval \<Rightarrow> pyval act" where
  "navigate env page url =
     (\<lambda>s. case lib env (Goto page url 30000 ''load'') s of
            (Inl (PyppeteerTimeoutError msg), s') \<Rightarrow>
              seq (print (PStr (''Error during page.goto(): '' @ msg)))
                (\<lambda>_. ret synthetic_response) s'
          | (r, s') \<Rightarrow> (r, s'))"

text \<open>Lines 128-133.\<close>

definition harvest :: "env \<Rightarrow> pyval \<Rightarrow> pyval \<Rightarrow> pyval \<Rightarrow> unit act" where
  "harvest env page response script_result =
     seq (lib env (Cookies page)) (\<lambda>cookies.
     seq (set_meta_data ''cookies'' cookies) (\<lambda>_.
     seq (lib env (Content page)) (\<lambda>content.
     seq (set_meta_data ''text'' content) (\<lambda>_.
     seq (lift (attr response ''status'')) (\<lambda>st.
     seq (set_meta_data ''status'' st) (\<lambda>_.
     seq (lift (attr response ''request'')) (\<lambda>rq.
     seq (set_meta_data ''request'' rq) (\<lambda>_.
     seq (lift (attr response ''headers'')) (\<lambda>hs.
     seq (set_meta_data ''headers'' hs) (\<lambda>_.
     set_meta_data ''script_result'' script_result))))))))))"

definition request :: "env \<Rightarrow> pyval \<Rightarrow> pyval \<Rightarrow> pyval \<Rightarrow> request_kwargs \<Rightarrow> response act" where
  "request env url ua callable kwargs =
     seq (init env) (\<lambda>_.
     let delay = pop (rk_delay kwargs) PNone;
         wait_for = pop (rk_wait_for kwargs) PNone in
     seq (lift (pop_required ''page_width'' (rk_page_width kwargs))) (\<lambda>width0.
     let width = (if width0 = PNone then PInt 800 else width0) in
     seq (lift (pop_required ''page_height'' (rk_page_height kwargs))) (\<lambda>height0.
     let height = (if height0 = PNone then PInt 600 else height0) in
     seq get_self (\<lambda>self.
     seq (lib env (NewPage (browser self))) (\<lambda>page.
     seq (lib env (SetUserAgent page (if ua \<noteq> PNone then ua else PStr default_ua))) (\<lambda>_.
     seq (lib env (SetViewport page width height)) (\<lambda>_.
     seq (if truthy (pop (rk_pretend kwargs) (PBool True))
          then inject env page (SCRIPTS env) else ret ()) (\<lambda>_.
     seq (enabled_interception
            (truthy (pop (rk_enabled_interception kwargs) (PBool False)))) (\<lambda>_.
     seq (intercept env page callable) (\<lambda>_.
     seq (navigate env page url) (\<lambda>response.
     seq (if delay \<noteq> PNone then seq (lib env (Sleep delay)) (\<lambda>_. ret ()) else ret ()) (\<lambda>_.
     seq (if truthy wait_for
          then seq (lib env (WaitFor page wait_for)) (\<lambda>_. ret ()) else ret ()) (\<lambda>_.
     let script = pop (rk_script kwargs) PNone in
     seq (if truthy script then lib env (Evaluate page script) else ret PNone) (\<lambda>script_result.
     seq (harvest env page response script_result) (\<lambda>_.
     seq (close env page) (\<lambda>_.
     seq get_self (\<lambda>self.
     PyppeteerResponse (Some (meta_data_ref self)))))))))))))))))))"

text \<open>The module-level \<^verbatim>\<open>get\<close>: a fresh controller, one render; every per-call key is
  passed on explicitly.\<close>

definition get ::
  "env \<Rightarrow> pyval \<Rightarrow> pyval \<Rightarrow> pyval \<Rightarrow> pyval \<Rightarrow> pyval \<Rightarrow> pyval \<Rightarrow> pyval \<Rightarrow> pyval \<Rightarrow>
   pyval option \<Rightarrow> init_kwargs \<Rightarrow> world \<Rightarrow> (exn + response) \<times> state" where
  "get env url delay wait_for page_width page_height enabled_interception0 script callable
       pretend_entry kwargs w =
     (let pretend = pop pretend_entry (PBool True)
      in request env url PNone callable
           \<lparr>rk_delay = Some delay, rk_wait_for = Some wait_for,
            rk_page_width = Some page_width, rk_page_height = Some page_height,
            rk_pretend = Some pretend, rk_enabled_interception = Some enabled_interception0,
            rk_script = Some script\<rparr>
           (PyppeteerRequest kwargs w))"


section \<open>Concrete inputs\<close>

definition world0 :: world where
  "world0 = \<lparr>lists = (\<lambda>_. []), next_list = 0, dicts = (\<lambda>_. Map.empty), next_dict = 0,
             trace = [], stdout = []\<rparr>"

definition no_kwargs :: init_kwargs where
  "no_kwargs = \<lparr>kw_headless = None, kw_path = None, kw_user_data_dir = None,
     kw_auto_close = None, kw_window_width = None, kw_window_height = None,
     kw_args = None, kw_enabled_maximize = None\<rparr>"

definition sized_kwargs :: init_kwargs where
  "sized_kwargs = no_kwargs\<lparr>kw_window_width := Some (SInt 800), kw_window_height := Some (SInt 600)\<rparr>"

definition world_with_list :: "string list \<Rightarrow> world" where
  "world_with_list xs = world0\<lparr>lists := (\<lambda>_. [])(0 := xs), next_list := 1\<rparr>"

definition lib_ok :: "call list \<Rightarrow> call \<Rightarrow> exn + pyval" where
  "lib_ok h c =
     (case c of
        AwaitLauncher _ \<Rightarrow> Inr (PObj 1)
      | NewPage _ \<Rightarrow> Inr (PObj 2)
      | Goto _ url _ _ \<Rightarrow>
          Inr (PResp (if url = PStr ''http://a'' then PInt 200 else PInt 404) (PObj 3) (PDict []))
      | Cookies _ \<Rightarrow> Inr (PDict [])
      | Content _ \<Rightarrow> Inr (PStr ''<html></html>'')
      | _ \<Rightarrow> Inr PNone)"

definition env_ok :: env where
  "env_ok = \<lparr>respond = lib_ok, SCRIPTS = []\<rparr>"

definition env_wait_fails :: env where
  "env_wait_fails =
     \<lparr>respond = (\<lambda>h c. case c of
                    WaitFor _ _ \<Rightarrow> Inl (PyppeteerTimeoutError ''waiting failed'')
                  | _ \<Rightarrow> lib_ok h c),
      SCRIPTS = []\<rparr>"

definition state0 :: state where
  "state0 = PyppeteerRequest no_kwargs world0"

definition rk_none :: request_kwargs where
  "rk_none = \<lparr>rk_delay = None, rk_wait_for = None, rk_page_width = None,
              rk_page_height = None, rk_pretend = None, rk_enabled_interception = None,
              rk_script = None\<rparr>"

definition rk_sized :: request_kwargs where
  "rk_sized = rk_none\<lparr>rk_page_width := Some PNone, rk_page_height := Some PNone\<rparr>"

definition rk_full :: request_kwargs where
  "rk_full = \<lparr>rk_delay = Some (PInt 1), rk_wait_for = Some (PStr ''#x''),
              rk_page_width = Some PNone, rk_page_height = Some PNone,
              rk_pretend = None, rk_enabled_interception = None,
              rk_script = Some (PStr ''1+1'')\<rparr>"

definition sync_kwargs :: request_kwargs where
  "sync_kwargs = rk_sized\<lparr>rk_enabled_interception := Some (PBool True)\<rparr>"

definition env_timeout :: env where
  "env_timeout =
     \<lparr>respond = (\<lambda>h c. case c of
                    Goto _ _ _ _ \<Rightarrow> Inl (PyppeteerTimeoutError ''Navigation Timeout Exceeded'')
                  | _ \<Rightarrow> lib_ok h c),
      SCRIPTS = [''script0'']\<rparr>"


definition state1 :: state where
  "state1 =
     (\<lparr>launcher = \<lparr>headless = SNone, executablePath = SNone, args = 0,
                     userDataDir = SNone, autoClose = SBool True\<rparr>,
       initialized = False, browser = PObj 1, enabled_interception_flag = False,
       meta_data_ref = 0\<rparr>,
      \<lparr>lists = (\<lambda>_. [])(0 := [''--disable-infobars'', ''--start-maximized'']),
       next_list = 1,
       dicts = (\<lambda>_. Map.empty)
         (0 := [''cookies'' \<mapsto> PDict [], ''text'' \<mapsto> PStr ''<html></html>'',
                ''status'' \<mapsto> PInt 200, ''request'' \<mapsto> PObj 3,
                ''headers'' \<mapsto> PDict [], ''script_result'' \<mapsto> PNone]),
       next_dict = 1,
       trace =
         [AwaitLauncher \<lparr>headless = SNone, executablePath = SNone, args = 0,
                          userDataDir = SNone, autoClose = SBool True\<rparr>,
          NewPage (PObj 1), SetUserAgent (PObj 2) (PStr default_ua),
          SetViewport (PObj 2) (PInt 800) (PInt 600),
          Goto (PObj 2) (PStr ''http://a'') 30000 ''load'', Cookies (PObj 2),
          Content (PObj 2), ClosePage (PObj 2), CloseBrowser (PObj 1)],
       stdout = []\<rparr>)"

definition accessors :: "world \<Rightarrow> response \<Rightarrow> pyval \<times> pyval \<times> pyval \<times> pyval \<times> pyval \<times> pyval" where
  "accessors w r =
     (get_text w r, get_cookies w r, get_headers w r, get_status w r, get_request w r,
      get_script_result w r)"


section \<open>Proof vocabulary\<close>

text \<open>\<open>frame P s s'\<close>: from \<open>s\<close> to \<open>s'\<close> the controller keeps its dictionary, and the
  library calls made all satisfy \<open>P\<close>; \<open>post Q m\<close>: every normal return of \<open>m\<close> satisfies \<open>Q\<close>.\<close>

fun is_close :: "call \<Rightarrow> bool" where
  "is_close (ClosePage _) = True"
| "is_close (CloseBrowser _) = True"
| "is_close _ = False"

fun is_goto :: "call \<Rightarrow> bool" where
  "is_goto (Goto _ _ _ _) = True"
| "is_goto _ = False"

definition frame :: "(call \<Rightarrow> bool) \<Rightarrow> state \<Rightarrow> state \<Rightarrow> bool" where
  "frame P s s' \<longleftrightarrow>
     meta_data_ref (fst s') = meta_data_ref (fst s) \<and>
     (\<exists>evs. trace (snd s') = trace (snd s) @ evs \<and> list_all P evs) \<and>
     (\<exists>out. stdout (snd s') = stdout (snd s) @ out)"

definition framed :: "(call \<Rightarrow> bool) \<Rightarrow> 'a act \<Rightarrow> bool" where
  "framed P m = (\<forall>s. frame P s (snd (m s)))"

definition post :: "(state \<Rightarrow> 'a \<Rightarrow> state \<Rightarrow> bool) \<Rightarrow> 'a act \<Rightarrow> bool" where
  "post Q m = (\<forall>s r s'. m s = (Inr r, s') \<longrightarrow> Q s r s')"

named_theorems framed_rules

definition aliases :: "state \<Rightarrow> response \<Rightarrow> state \<Rightarrow> bool" where
  "aliases s r s' \<longleftrightarrow> meta_data r = meta_data_ref (fst s)"

text \<open>\<open>keeps g m\<close>: \<open>m\<close> leaves the observation \<open>g\<close> of the state as it was, however it
  ends; \<open>returns Q m\<close>: from every state \<open>m\<close> returns normally, with a value satisfying \<open>Q\<close>.
  An environment is \<open>cooperative\<close> when navigation either yields a response object or times
  out, and every other library call succeeds.\<close>

fun is_new_page :: "call \<Rightarrow> bool" where
  "is_new_page (NewPage _) = True"
| "is_new_page _ = False"

definition is_resp :: "pyval \<Rightarrow> bool" where
  "is_resp v = (case v of PResp _ _ _ \<Rightarrow> True | _ \<Rightarrow> False)"

definition cooperative :: "env \<Rightarrow> bool" where
  "cooperative env \<longleftrightarrow>
     (\<forall>h c. if is_goto c
            then (\<exists>v. respond env h c = Inr v \<and> is_resp v) \<or>
                 (\<exists>msg. respond env h c = Inl (PyppeteerTimeoutError msg))
            else (\<exists>v. respond env h c = Inr v))"

definition keeps :: "(state \<Rightarrow> 'x) \<Rightarrow> 'a act \<Rightarrow> bool" where
  "keeps g m \<longleftrightarrow> (\<forall>s. g (snd (m s)) = g s)"

definition returns :: "('a \<Rightarrow> bool) \<Rightarrow> 'a act \<Rightarrow> bool" where
  "returns Q m \<longleftrightarrow> (\<forall>s. \<exists>r s'. m s = (Inr r, s') \<and> Q r)"

named_theorems keeps_rules
named_theorems returns_rules

text \<open>\<open>closes_opened_page env s s'\<close>: between \<open>s\<close> and \<open>s'\<close> exactly one page was opened, on the
  controller's browser; the calls end with \<^verbatim>\<open>close()\<close> of the very page that \<^verbatim>\<open>newPage()\<close>
  returned, then \<^verbatim>\<open>close()\<close> of that browser; no other close call was made; and the
  controller is left uninitialized.\<close>

definition closes :: "pyval \<Rightarrow> state \<Rightarrow> response \<Rightarrow> state \<Rightarrow> bool" where
  "closes page s r s' \<longleftrightarrow>
     (\<exists>evs. trace (snd s') =
              trace (snd s) @ evs @ [ClosePage page, CloseBrowser (browser (fst s))] \<and>
            list_all (\<lambda>c. \<not> is_close c \<and> \<not> is_new_page c) evs) \<and>
     browser (fst s') = browser (fst s) \<and> \<not> initialized (fst s')"

definition closes_opened_page :: "env \<Rightarrow> state \<Rightarrow> state \<Rightarrow> bool" where
  "closes_opened_page env s s' \<longleftrightarrow>
     (\<exists>pre evs page.
        trace (snd s') =
          trace (snd s) @ pre @ [NewPage (browser (fst s'))] @ evs @
            [ClosePage page, CloseBrowser (browser (fst s'))] \<and>
        respond env (trace (snd s) @ pre) (NewPage (browser (fst s'))) = Inr page \<and>
        list_all (\<lambda>c. \<not> is_close c \<and> \<not> is_new_page c) (pre @ evs)) \<and>
     \<not> initialized (fst s')"

text \<open>\<open>times_out env url msg\<close>: every navigation to \<open>url\<close> (with the 30-second timeout the
  code passes) raises pyppeteer's timeout error with message \<open>msg\<close>. \<open>says out\<close>: the step
  printed exactly the lines \<open>out\<close>. \<open>carries st rq hs\<close>: the returned response reports this
  status, request and headers.\<close>

definition times_out :: "env \<Rightarrow> pyval \<Rightarrow> string \<Rightarrow> bool" where
  "times_out env url msg \<longleftrightarrow>
     (\<forall>h page. respond env h (Goto page url 30000 ''load'') = Inl (PyppeteerTimeoutError msg))"

definition says :: "pyval list \<Rightarrow> state \<Rightarrow> 'a \<Rightarrow> state \<Rightarrow> bool" where
  "says out s r s' \<longleftrightarrow> stdout (snd s') = stdout (snd s) @ out"

definition carries :: "pyval \<Rightarrow> pyval \<Rightarrow> pyval \<Rightarrow> state \<Rightarrow> response \<Rightarrow> state \<Rightarrow> bool" where
  "carries st rq hs s r s' \<longleftrightarrow>
     get_status (snd s') r = st \<and> get_request (snd s') r = rq \<and> get_headers (snd s') r = hs"

text \<open>\<open>halts P m\<close>: from every state \<open>m\<close> raises, having made only library calls that
  satisfy \<open>P\<close>; \<open>raises e m\<close>: from every state \<open>m\<close> raises \<open>e\<close>.\<close>

definition halts :: "(call \<Rightarrow> bool) \<Rightarrow> 'a act \<Rightarrow> bool" where
  "halts P m \<longleftrightarrow> (\<forall>s. (\<exists>e. fst (m s) = Inl e) \<and> frame P s (snd (m s)))"

definition raises :: "exn \<Rightarrow> 'a act \<Rightarrow> bool" where
  "raises e m \<longleftrightarrow> (\<forall>s. fst (m s) = Inl e)"

text \<open>The operations a caller can perform on a controller, and a sequence of them run one
  after the other, whatever each one returns or raises.\<close>

datatype operation =
    Init
  | Request pyval pyval pyval request_kwargs
  | Close pyval
  | EnabledInterception bool
  | HandleRequest pyval

fun perform :: "env \<Rightarrow> operation \<Rightarrow> state \<Rightarrow> state" where
  "perform env Init s = snd (init env s)"
| "perform env (Request url ua callable kwargs) s = snd (request env url ua callable kwargs s)"
| "perform env (Close page) s = snd (close env page s)"
| "perform env (EnabledInterception v) s = snd (enabled_interception v s)"
| "perform env (HandleRequest rq) s = snd (handle_request env rq s)"

fun run :: "env \<Rightarrow> operation list \<Rightarrow> state \<Rightarrow> state" where
  "run env [] s = s"
| "run env (x # xs) s = run env xs (perform env x s)"

text \<open>\<open>await_once env\<close>: awaiting a launcher that was awaited before raises (a launcher is
  told apart by the arguments it was created with, the address of its \<^verbatim>\<open>args\<close> list among
  them). \<open>launched s\<close>: the controller's launcher has been awaited; \<open>awaited s\<close>: an initialized
  controller has awaited its launcher; \<open>spent s\<close>: the launcher has been awaited and the
  controller is not initialized. \<open>preserves I m\<close>: \<open>m\<close> keeps the state within \<open>I\<close>, however
  it ends.\<close>

definition await_once :: "env \<Rightarrow> bool" where
  "await_once env \<longleftrightarrow>
     (\<forall>h l. AwaitLauncher l \<in> set h \<longrightarrow> (\<exists>e. respond env h (AwaitLauncher l) = Inl e))"




definition preserves :: "(state \<Rightarrow> bool) \<Rightarrow> 'a act \<Rightarrow> bool" where
  "preserves I m \<longleftrightarrow> (\<forall>s. I s \<longrightarrow> I (snd (m s)))"

named_theorems preserves_rules


section \<open>Launch arguments\<close>

text \<open>The final list in closed form, for every configuration.\<close>

lemma launch_args_eq:
  "launch_args (PyppeteerRequest kwargs w) =
     (let xs = caller_args kwargs w @ [''--disable-infobars''] @
               (if maximize_on kwargs then [''--start-maximized''] else [])
      in if window_pair kwargs
         then remove1 ''--start-maximized'' (xs @ [window_size_arg kwargs])
         else xs)"
  by (cases "pop (kw_args kwargs) None")
     (simp_all add: launch_args_def PyppeteerRequest_def caller_args_def window_pair_def
        window_size_arg_def maximize_on_def new_list_def new_dict_def list_append_def
        list_remove_def Let_def)

lemma count_list_remove1:
  "count_list (remove1 x xs) y =
     (if x = y \<and> x \<in> set xs then count_list xs y - 1 else count_list xs y)"
  by (induction xs) auto

lemma window_size_arg_is_window_size: "is_window_size (window_size_arg kwargs)"
  by (simp add: is_window_size_def window_size_arg_def)

lemma window_size_arg_neq:
  "window_size_arg kwargs \<noteq> ''--disable-infobars''"
  "window_size_arg kwargs \<noteq> ''--start-maximized''"
  by (simp_all add: window_size_arg_def)

lemma not_window_size:
  "\<not> is_window_size ''--disable-infobars''" "\<not> is_window_size ''--start-maximized''"
  by (simp_all add: is_window_size_def)

lemma filter_remove1_other: "\<not> Q x \<Longrightarrow> filter Q (remove1 x xs) = filter Q xs"
  by (induction xs) auto

lemma str_800: "str_int 800 = ''800''" "str_int 600 = ''600''"
  by (simp_all add: str_int_def dec_nat.simps)

lemmas ctor_simps = launch_args_eq Let_def caller_args_def sized_kwargs_def no_kwargs_def
      world_with_list_def world0_def pop_def maximize_on_def window_pair_def
      window_size_arg_def str_800 is_window_size_def is_maximize_def

text \<open>
  Claim C7 (the code departs from it). \<^verbatim>\<open>args.remove("--start-maximized")\<close> deletes only the
  first occurrence. With \<^verbatim>\<open>args=['--start-maximized']\<close>, both window dimensions set and
  \<^verbatim>\<open>enabled_maximize\<close> left at its default, the final launch-argument list holds a
  window-size argument and a maximize argument; with \<^verbatim>\<open>enabled_maximize=False\<close> on the same
  input it holds no maximize argument, so \<^verbatim>\<open>enabled_maximize\<close> does take effect although
  both dimensions are given.
\<close>

theorem launch_args_keeps_maximize:
  "window_pair (sized_kwargs\<lparr>kw_args := Some (Some 0)\<rparr>) \<and>
   launch_args (PyppeteerRequest (sized_kwargs\<lparr>kw_args := Some (Some 0)\<rparr>)
                  (world_with_list [''--start-maximized''])) =
     [''--disable-infobars'', ''--start-maximized'', ''--window-size=800,600''] \<and>
   list_ex is_window_size [''--disable-infobars'', ''--start-maximized'', ''--window-size=800,600''] \<and>
   list_ex is_maximize [''--disable-infobars'', ''--start-maximized'', ''--window-size=800,600''] \<and>
   launch_args (PyppeteerRequest
       (sized_kwargs\<lparr>kw_args := Some (Some 0), kw_enabled_maximize := Some (SBool False)\<rparr>)
       (world_with_list [''--start-maximized''])) =
     [''--disable-infobars'', ''--window-size=800,600'']"
  by (simp add: ctor_simps)

text \<open>
  The extent of the defect. When the caller-supplied list holds no window-size argument and,
  in case \<^verbatim>\<open>window_width\<close> and \<^verbatim>\<open>window_height\<close> are both truthy, the caller-supplied
  list and \<^verbatim>\<open>enabled_maximize\<close> together contribute at most one \<^verbatim>\<open>--start-maximized\<close>, the
  final list never holds both a window-size argument and a maximize argument; and when both
  dimensions are truthy it holds exactly one window-size argument, with those values, and
  no \<^verbatim>\<open>--start-maximized\<close>.
\<close>

theorem launch_args_exclusive:
  assumes "\<not> list_ex is_window_size (caller_args kwargs w)"
    and "window_pair kwargs \<longrightarrow>
           count_list (caller_args kwargs w) ''--start-maximized'' +
             (if maximize_on kwargs then 1 else 0) \<le> 1"
  shows "\<not> (list_ex is_window_size (launch_args (PyppeteerRequest kwargs w)) \<and>
             list_ex is_maximize (launch_args (PyppeteerRequest kwargs w))) \<and>
         (window_pair kwargs \<longrightarrow>
            filter is_window_size (launch_args (PyppeteerRequest kwargs w)) =
              [window_size_arg kwargs] \<and>
            \<not> list_ex is_maximize (launch_args (PyppeteerRequest kwargs w)))"
proof (cases "window_pair kwargs")
  case False
  with assms(1) have "\<not> list_ex is_window_size (launch_args (PyppeteerRequest kwargs w))"
    by (auto simp: launch_args_eq Let_def not_window_size list_ex_iff)
  with False show ?thesis by simp
next
  case True
  let ?pre = "caller_args kwargs w @ [''--disable-infobars''] @
              (if maximize_on kwargs then [''--start-maximized''] else []) @
              [window_size_arg kwargs]"
  have fin: "launch_args (PyppeteerRequest kwargs w) = remove1 ''--start-maximized'' ?pre"
    using True by (simp add: launch_args_eq Let_def)
  from assms(1) have nows: "filter is_window_size (caller_args kwargs w) = []"
    by (simp add: list_ex_iff filter_empty_conv)
  have ws: "filter is_window_size (launch_args (PyppeteerRequest kwargs w)) =
              [window_size_arg kwargs]"
    by (simp add: fin filter_remove1_other not_window_size nows window_size_arg_is_window_size)
  from assms(2) True
  have le: "count_list (caller_args kwargs w) ''--start-maximized'' +
             (if maximize_on kwargs then 1 else 0) \<le> 1" by (rule mp)
  have "count_list ?pre ''--start-maximized'' \<le> 1"
    using le by (auto simp: window_size_arg_neq split: if_splits)
  then have "count_list (launch_args (PyppeteerRequest kwargs w)) ''--start-maximized'' = 0"
    unfolding fin count_list_remove1 by (simp del: count_list_append)
  then have "\<not> list_ex is_maximize (launch_args (PyppeteerRequest kwargs w))"
    by (simp add: count_list_0_iff list_ex_iff is_maximize_def)
  with ws True show ?thesis by simp
qed

theorem launch_args_exclusive_witness:
  "(filter is_window_size (launch_args (PyppeteerRequest sized_kwargs world0)) =
     [''--window-size=800,600''] \<and>
    \<not> list_ex is_maximize (launch_args (PyppeteerRequest sized_kwargs world0))) \<and>
   \<not> (list_ex is_window_size
         (launch_args (PyppeteerRequest (no_kwargs\<lparr>kw_args := Some (Some 0)\<rparr>)
            (world_with_list [''--start-maximized'']))) \<and>
       list_ex is_maximize
         (launch_args (PyppeteerRequest (no_kwargs\<lparr>kw_args := Some (Some 0)\<rparr>)
            (world_with_list [''--start-maximized'']))))"
proof -
  have a: "\<not> list_ex is_window_size (caller_args sized_kwargs world0)"
    by (simp add: caller_args_def sized_kwargs_def no_kwargs_def pop_def)
  have b: "window_pair sized_kwargs \<longrightarrow>
           count_list (caller_args sized_kwargs world0) ''--start-maximized'' +
             (if maximize_on sized_kwargs then 1 else 0) \<le> 1"
    by (simp add: caller_args_def sized_kwargs_def no_kwargs_def pop_def)
  have c: "window_pair sized_kwargs"
    by (simp add: window_pair_def sized_kwargs_def no_kwargs_def pop_def)
  have d: "window_size_arg sized_kwargs = ''--window-size=800,600''"
    by (simp add: window_size_arg_def sized_kwargs_def no_kwargs_def pop_def str_800)
  have a': "\<not> list_ex is_window_size (caller_args (no_kwargs\<lparr>kw_args := Some (Some 0)\<rparr>)
              (world_with_list [''--start-maximized'']))"
    by (simp add: caller_args_def no_kwargs_def pop_def world_with_list_def world0_def
        is_window_size_def)
  have b': "window_pair (no_kwargs\<lparr>kw_args := Some (Some 0)\<rparr>) \<longrightarrow>
           count_list (caller_args (no_kwargs\<lparr>kw_args := Some (Some 0)\<rparr>)
              (world_with_list [''--start-maximized''])) ''--start-maximized'' +
             (if maximize_on (no_kwargs\<lparr>kw_args := Some (Some 0)\<rparr>) then 1 else 0) \<le> 1"
    by (simp add: window_pair_def no_kwargs_def pop_def)
  from launch_args_exclusive [OF a b] c d
  have 1: "filter is_window_size (launch_args (PyppeteerRequest sized_kwargs world0)) =
     [''--window-size=800,600''] \<and>
    \<not> list_ex is_maximize (launch_args (PyppeteerRequest sized_kwargs world0))" by simp
  from launch_args_exclusive [OF a' b'] have 2: "\<not> (list_ex is_window_size
         (launch_args (PyppeteerRequest (no_kwargs\<lparr>kw_args := Some (Some 0)\<rparr>)
            (world_with_list [''--start-maximized'']))) \<and>
       list_ex is_maximize
         (launch_args (PyppeteerRequest (no_kwargs\<lparr>kw_args := Some (Some 0)\<rparr>)
            (world_with_list [''--start-maximized'']))))" by (rule conjunct1)
  from 1 2 show ?thesis by (rule conjI)
qed

text \<open>
  The constructor never inspects the caller's list for a window-size argument: one that the
  caller passed stays beside the \<^verbatim>\<open>--start-maximized\<close> the constructor appends.
\<close>

lemma launch_args_caller_window_size:
  "launch_args (PyppeteerRequest (no_kwargs\<lparr>kw_args := Some (Some 0)\<rparr>)
                  (world_with_list [''--window-size=1,1''])) =
     [''--window-size=1,1'', ''--disable-infobars'', ''--start-maximized''] \<and>
   list_ex is_window_size [''--window-size=1,1'', ''--disable-infobars'', ''--start-maximized''] \<and>
   list_ex is_maximize [''--window-size=1,1'', ''--disable-infobars'', ''--start-maximized'']"
  by (simp add: ctor_simps)

text \<open>
  Claim C8, as amended. The final launch-argument list holds \<^verbatim>\<open>--disable-infobars\<close> exactly
  once more than the caller-supplied list did: exactly once when the caller passed no list
  or a list without it.
\<close>

theorem disable_infobars_count:
  "count_list (launch_args (PyppeteerRequest kwargs w)) ''--disable-infobars'' =
     Suc (count_list (caller_args kwargs w) ''--disable-infobars'')"
  by (simp add: launch_args_eq Let_def count_list_remove1 window_size_arg_neq)

text \<open>
  Claim C8 as stated fails on a caller list that already holds \<^verbatim>\<open>--disable-infobars\<close>: the
  constructor appends a second one.
\<close>

theorem disable_infobars_twice_counterexample:
  "count_list (launch_args (PyppeteerRequest (no_kwargs\<lparr>kw_args := Some (Some 0)\<rparr>)
                              (world_with_list [''--disable-infobars''])))
     ''--disable-infobars'' = 2"
  by (simp add: launch_args_eq Let_def caller_args_def no_kwargs_def world_with_list_def
      world0_def pop_def maximize_on_def window_pair_def)

text \<open>
  Claim C9. A truthy \<^verbatim>\<open>headless\<close> (in particular \<^verbatim>\<open>headless=True\<close>) makes the constructor
  pass \<^verbatim>\<open>autoClose=True\<close> to the launcher, whatever \<^verbatim>\<open>auto_close\<close> the caller gave.
\<close>

theorem headless_forces_auto_close:
  "truthy_scalar (pop (kw_headless kwargs) SNone) \<Longrightarrow>
   autoClose (launcher (fst (PyppeteerRequest kwargs w))) = SBool True"
  by (simp add: PyppeteerRequest_def Let_def split: prod.splits option.splits)

theorem headless_forces_auto_close_witness:
  "autoClose (launcher (fst (PyppeteerRequest
     (no_kwargs\<lparr>kw_headless := Some (SBool True), kw_auto_close := Some (SBool False)\<rparr>) world0))) =
   SBool True"
  using headless_forces_auto_close
    [of "no_kwargs\<lparr>kw_headless := Some (SBool True), kw_auto_close := Some (SBool False)\<rparr>" world0]
  by (simp add: pop_def no_kwargs_def)

text \<open>
  Claim C10. A caller-supplied \<^verbatim>\<open>args\<close> list is the very list object the launcher gets,
  and the constructor changes it in place: \<^verbatim>\<open>--disable-infobars\<close> is appended, then
  \<^verbatim>\<open>--start-maximized\<close> and the window-size argument as configured, and the first
  \<^verbatim>\<open>--start-maximized\<close> is removed when both window dimensions are set; the list differs
  from what the caller passed, and no other list object is touched.
\<close>

theorem caller_list_mutated:
  assumes "kw_args kwargs = Some (Some a)"
  shows "args (launcher (fst (PyppeteerRequest kwargs w))) = a \<and>
         lists (snd (PyppeteerRequest kwargs w)) a =
           (let xs = lists w a @ [''--disable-infobars''] @
                     (if maximize_on kwargs then [''--start-maximized''] else [])
            in if window_pair kwargs
               then remove1 ''--start-maximized'' (xs @ [window_size_arg kwargs])
               else xs) \<and>
         lists (snd (PyppeteerRequest kwargs w)) a \<noteq> lists w a \<and>
         (\<forall>b. b \<noteq> a \<longrightarrow> lists (snd (PyppeteerRequest kwargs w)) b = lists w b)"
proof -
  have a: "args (launcher (fst (PyppeteerRequest kwargs w))) = a"
    using assms by (simp add: PyppeteerRequest_def Let_def pop_def split: prod.splits)
  have eq: "lists (snd (PyppeteerRequest kwargs w)) a =
           (let xs = lists w a @ [''--disable-infobars''] @
                     (if maximize_on kwargs then [''--start-maximized''] else [])
            in if window_pair kwargs
               then remove1 ''--start-maximized'' (xs @ [window_size_arg kwargs])
               else xs)"
    using launch_args_eq [of kwargs w] a assms
    by (simp add: launch_args_def caller_args_def pop_def)
  have "length (lists (snd (PyppeteerRequest kwargs w)) a) > length (lists w a)"
    unfolding eq by (simp add: Let_def length_remove1)
  then have ne: "lists (snd (PyppeteerRequest kwargs w)) a \<noteq> lists w a" by auto
  have fr: "\<forall>b. b \<noteq> a \<longrightarrow> lists (snd (PyppeteerRequest kwargs w)) b = lists w b"
    using assms
    by (simp add: PyppeteerRequest_def Let_def pop_def new_dict_def list_append_def
        list_remove_def split: prod.splits)
  from a eq ne fr show ?thesis by blast
qed

theorem caller_list_mutated_witness:
  "lists (snd (PyppeteerRequest
       (sized_kwargs\<lparr>kw_args := Some (Some 0), kw_enabled_maximize := Some (SBool False)\<rparr>)
       (world_with_list [''--start-maximized'']))) 0 =
     [''--disable-infobars'', ''--window-size=800,600''] \<and>
   lists (world_with_list [''--start-maximized'']) 0 = [''--start-maximized'']"
  using caller_list_mutated
    [of "sized_kwargs\<lparr>kw_args := Some (Some 0), kw_enabled_maximize := Some (SBool False)\<rparr>" 0
        "world_with_list [''--start-maximized'']"]
  by (simp add: Let_def sized_kwargs_def no_kwargs_def world_with_list_def world0_def pop_def
      maximize_on_def window_pair_def window_size_arg_def str_800)


section \<open>Sequencing rules\<close>

lemma frame_refl: "frame P s s"
  by (simp add: frame_def)

lemma frame_trans: "frame P s s1 \<Longrightarrow> frame P s1 s2 \<Longrightarrow> frame P s s2"
  unfolding frame_def
proof (elim conjE exE, intro conjI)
  fix evs evs' out out'
  assume "trace (snd s1) = trace (snd s) @ evs" "list_all P evs"
    "trace (snd s2) = trace (snd s1) @ evs'" "list_all P evs'"
  then have "trace (snd s2) = trace (snd s) @ (evs @ evs') \<and> list_all P (evs @ evs')"
    by simp
  then show "\<exists>evs. trace (snd s2) = trace (snd s) @ evs \<and> list_all P evs" by blast
next
  fix out out'
  assume "stdout (snd s1) = stdout (snd s) @ out" "stdout (snd s2) = stdout (snd s1) @ out'"
  then have "stdout (snd s2) = stdout (snd s) @ (out @ out')" by simp
  then show "\<exists>out. stdout (snd s2) = stdout (snd s) @ out" by blast
qed simp

lemma seq_Inr_iff:
  "seq m f s = (Inr r, s') \<longleftrightarrow> (\<exists>a s1. m s = (Inr a, s1) \<and> f a s1 = (Inr r, s'))"
  by (cases "m s") (auto simp: seq_def split: sum.splits)

lemma framed_ret [framed_rules]: "framed P (ret x)"
  by (simp add: framed_def ret_def frame_refl)

lemma framed_raise [framed_rules]: "framed P (raise e)"
  by (simp add: framed_def raise_def frame_refl)

lemma framed_lift [framed_rules]: "framed P (lift r)"
  by (simp add: framed_def lift_def frame_refl)

lemma framed_get_self [framed_rules]: "framed P get_self"
  by (simp add: framed_def get_self_def frame_refl)

lemma framed_print [framed_rules]: "framed P (print v)"
  by (simp add: framed_def print_def frame_def)

lemma framed_set_meta_data [framed_rules]: "framed P (set_meta_data k v)"
  by (simp add: framed_def set_meta_data_def frame_def)

lemma framed_enabled_interception [framed_rules]: "framed P (enabled_interception v)"
  by (simp add: framed_def enabled_interception_def frame_def)

lemma framed_lib [framed_rules]: "P c \<Longrightarrow> framed P (lib env c)"
  by (simp add: framed_def lib_def frame_def)

lemma framed_seq [framed_rules]:
  assumes "framed P m" and "\<And>a. framed P (f a)"
  shows "framed P (seq m f)"
  unfolding framed_def
proof
  fix s
  obtain r s1 where m: "m s = (r, s1)" by (cases "m s")
  from assms(1) have "frame P s (snd (m s))" unfolding framed_def by blast
  with m have f1: "frame P s s1" by simp
  show "frame P s (snd (seq m f s))"
  proof (cases r)
    case (Inl e)
    with m f1 show ?thesis by (simp add: seq_def)
  next
    case (Inr a)
    from assms(2) [of a] have "frame P s1 (snd (f a s1))" unfolding framed_def by blast
    with f1 have "frame P s (snd (f a s1))" by (rule frame_trans)
    with m Inr show ?thesis by (simp add: seq_def)
  qed
qed

lemma framed_if [framed_rules]:
  "(c \<Longrightarrow> framed P a) \<Longrightarrow> (\<not> c \<Longrightarrow> framed P b) \<Longrightarrow> framed P (if c then a else b)"
  by simp

lemma framed_init [framed_rules]: "(\<And>l. P (AwaitLauncher l)) \<Longrightarrow> framed P (init env)"
  by (auto simp: framed_def init_def seq_def lib_def frame_def split: sum.splits)

lemma framed_inject [framed_rules]:
  "(\<And>x. P (EvaluateOnNewDocument page x)) \<Longrightarrow> framed P (inject env page xs)"
  by (induction xs) (auto intro!: framed_rules)

lemma framed_intercept [framed_rules]:
  "(\<And>b. P (SetRequestInterception page b)) \<Longrightarrow> (\<And>h. P (On_request page h)) \<Longrightarrow>
   framed P (intercept env page callable)"
  unfolding intercept_def by (intro framed_rules) simp_all

lemma framed_navigate [framed_rules]:
  "P (Goto page url 30000 ''load'') \<Longrightarrow> framed P (navigate env page url)"
  by (auto simp: framed_def navigate_def seq_def lib_def print_def ret_def frame_def
      split: sum.splits exn.splits)

lemma framed_harvest [framed_rules]:
  "P (Cookies page) \<Longrightarrow> P (Content page) \<Longrightarrow> framed P (harvest env page response sr)"
  unfolding harvest_def by (intro framed_rules) simp_all

lemma framed_close [framed_rules]:
  "P (ClosePage page) \<Longrightarrow> (\<And>b. P (CloseBrowser b)) \<Longrightarrow> framed P (close env page)"
  unfolding close_def
  by (intro framed_rules) (simp_all add: framed_def frame_def)

lemma framed_PyppeteerResponse [framed_rules]: "framed P (PyppeteerResponse (Some a))"
  by (simp add: PyppeteerResponse_def framed_rules)

lemma framed_request: "framed (\<lambda>_. True) (request env url ua callable kwargs)"
  unfolding request_def Let_def by (intro framed_rules) simp_all

lemma aliases_seq:
  assumes "framed (\<lambda>_. True) m" and "\<And>a. post aliases (f a)"
  shows "post aliases (seq m f)"
  unfolding post_def
proof (intro allI impI)
  fix s r s'
  assume "seq m f s = (Inr r, s')"
  then obtain a s1 where m: "m s = (Inr a, s1)" and f: "f a s1 = (Inr r, s')"
    by (auto simp: seq_Inr_iff)
  from assms(1) have "frame (\<lambda>_. True) s (snd (m s))" unfolding framed_def by blast
  with m have "meta_data_ref (fst s1) = meta_data_ref (fst s)" by (simp add: frame_def)
  moreover from assms(2) [of a] f have "aliases s1 r s'" unfolding post_def by blast
  ultimately show "aliases s r s'" by (simp add: aliases_def)
qed

lemma aliases_tail:
  "post aliases (seq get_self (\<lambda>self. PyppeteerResponse (Some (meta_data_ref self))))"
  unfolding post_def aliases_def
  by (auto simp: seq_Inr_iff get_self_def PyppeteerResponse_def ret_def)

lemma request_aliases: "post aliases (request env url ua callable kwargs)"
  unfolding request_def Let_def
  by (rule aliases_tail | (rule aliases_seq, (intro framed_rules; simp)[1]))+


section \<open>Rendering a page\<close>

lemma seq_app:
  "seq m f s = (case m s of (Inl e, s') \<Rightarrow> (Inl e, s') | (Inr a, s') \<Rightarrow> f a s')"
  by (simp add: seq_def)

lemma ret_app: "ret x s = (Inr x, s)"
  by (simp add: ret_def)

lemma raise_app: "raise e s = (Inl e, s)"
  by (simp add: raise_def)

lemma lift_app: "lift r s = (r, s)"
  by (simp add: lift_def)

lemma get_self_app: "get_self s = (Inr (fst s), s)"
  by (simp add: get_self_def)

lemma lib_app:
  "lib env c s = (respond env (trace (snd s)) c, (fst s, (snd s)\<lparr>trace := trace (snd s) @ [c]\<rparr>))"
  by (simp add: lib_def)

lemma print_app: "print v s = (Inr (), (fst s, (snd s)\<lparr>stdout := stdout (snd s) @ [v]\<rparr>))"
  by (simp add: print_def)

lemma set_meta_data_app:
  "set_meta_data key v s =
     (Inr (), (fst s, (snd s)\<lparr>dicts := (dicts (snd s))
        (meta_data_ref (fst s) := (dicts (snd s) (meta_data_ref (fst s)))(key \<mapsto> v))\<rparr>))"
  by (simp add: set_meta_data_def)

lemma enabled_interception_app:
  "enabled_interception v s = (Inr (), ((fst s)\<lparr>enabled_interception_flag := v\<rparr>, snd s))"
  by (simp add: enabled_interception_def)

lemma init_app:
  "init env s =
     (if \<not> initialized (fst s)
      then seq (lib env (AwaitLauncher (launcher (fst s))))
             (\<lambda>b s'. (Inr (), ((fst s')\<lparr>browser := b, initialized := True\<rparr>, snd s'))) s
      else (Inr (), s))"
  by (simp add: init_def)

lemma navigate_app:
  "navigate env page url s =
     (case lib env (Goto page url 30000 ''load'') s of
        (Inl (PyppeteerTimeoutError msg), s') \<Rightarrow>
          seq (print (PStr (''Error during page.goto(): '' @ msg)))
            (\<lambda>_. ret synthetic_response) s'
      | (r, s') \<Rightarrow> (r, s'))"
  by (simp add: navigate_def)

lemma PyppeteerResponse_app: "PyppeteerResponse (Some a) s = (Inr \<lparr>meta_data = a\<rparr>, s)"
  by (simp add: PyppeteerResponse_def ret_def)

lemma close_app:
  "close env page s =
     seq (lib env (ClosePage page)) (\<lambda>_.
     seq get_self (\<lambda>self.
     seq (lib env (CloseBrowser (browser self))) (\<lambda>_.
     (\<lambda>s. (Inr (), ((fst s)\<lparr>initialized := False\<rparr>, snd s)))))) s"
  by (simp add: close_def)

lemma intercept_app:
  "intercept env page callable s =
     seq get_self (\<lambda>self.
     if enabled_interception_flag self then
       seq (lib env (SetRequestInterception page True)) (\<lambda>_.
       seq (if \<not> truthy callable
            then seq (lib env (On_request page DefaultHandler)) (\<lambda>_. ret ())
            else ret ()) (\<lambda>_.
       if iscoroutinefunction callable
       then seq (lib env (On_request page (UserHandler callable))) (\<lambda>_. ret ())
       else raise (TypeError ''callable must be coroutine function.'')))
     else ret ()) s"
  by (simp add: intercept_def)

lemma harvest_app:
  "harvest env page response script_result s =
     seq (lib env (Cookies page)) (\<lambda>cookies.
     seq (set_meta_data ''cookies'' cookies) (\<lambda>_.
     seq (lib env (Content page)) (\<lambda>content.
     seq (set_meta_data ''text'' content) (\<lambda>_.
     seq (lift (attr response ''status'')) (\<lambda>st.
     seq (set_meta_data ''status'' st) (\<lambda>_.
     seq (lift (attr response ''request'')) (\<lambda>rq.
     seq (set_meta_data ''request'' rq) (\<lambda>_.
     seq (lift (attr response ''headers'')) (\<lambda>hs.
     seq (set_meta_data ''headers'' hs) (\<lambda>_.
     set_meta_data ''script_result'' script_result)))))))))) s"
  by (simp add: harvest_def)

lemma if_app: "(if b then m1 else m2) s = (if b then m1 s else m2 s)"
  by simp

lemmas run_simps =
  seq_app ret_app raise_app lift_app get_self_app lib_app print_app set_meta_data_app
  enabled_interception_app init_app navigate_app PyppeteerResponse_app close_app
  intercept_app harvest_app if_app inject.simps
  pop_def pop_required_def iscoroutinefunction_def synthetic_response_def

lemmas input_simps =
  state0_def PyppeteerRequest_def no_kwargs_def world0_def new_list_def new_dict_def
  list_append_def list_remove_def rk_none_def rk_sized_def env_ok_def lib_ok_def
  env_wait_fails_def Let_def pop_def

lemma state0_eq:
  "state0 = (\<lparr>launcher = \<lparr>headless = SNone, executablePath = SNone, args = 0,
                userDataDir = SNone, autoClose = SBool True\<rparr>,
              initialized = False, browser = PNone, enabled_interception_flag = False,
              meta_data_ref = 0\<rparr>,
             \<lparr>lists = (\<lambda>_. [])(0 := [''--disable-infobars'', ''--start-maximized'']),
              next_list = 1, dicts = (\<lambda>_. Map.empty)(0 := Map.empty), next_dict = 1,
              trace = [], stdout = []\<rparr>)"
  by (simp add: input_simps)

lemmas env_simps = rk_none_def rk_sized_def env_ok_def lib_ok_def env_wait_fails_def
  env_timeout_def

text \<open>
  Claim C3 (the code departs from it). With \<^verbatim>\<open>page_width\<close> not passed, \<^verbatim>\<open>request\<close> launches
  the browser and then raises \<^verbatim>\<open>KeyError('page_width')\<close>: \<^verbatim>\<open>kwargs.pop("page_width")\<close> has
  no default, unlike the pops of \<^verbatim>\<open>delay\<close> and \<^verbatim>\<open>wait_for\<close> beside it. No viewport is set.
\<close>

theorem request_without_page_width:
  "fst (request env_ok (PStr ''http://a'') PNone PNone rk_none state0) =
     Inl (KeyError ''page_width'') \<and>
   trace (snd (snd (request env_ok (PStr ''http://a'') PNone PNone rk_none state0))) =
     [AwaitLauncher (launcher (fst state0))]"
  unfolding request_def Let_def state0_eq by (simp add: run_simps env_simps)

text \<open>
  Claim C1 (the code departs from it). With interception enabled and no handler supplied,
  \<^verbatim>\<open>request\<close> installs the default handler and then raises
  \<^verbatim>\<open>TypeError('callable must be coroutine function.')\<close>, because the second \<^verbatim>\<open>if\<close> tests
  \<^verbatim>\<open>inspect.iscoroutinefunction(None)\<close>; the page is never navigated.
\<close>

theorem request_default_handler_raises:
  "fst (request env_ok (PStr ''http://a'') PNone PNone
          (rk_sized\<lparr>rk_enabled_interception := Some (PBool True)\<rparr>) state0) =
     Inl (TypeError ''callable must be coroutine function.'') \<and>
   last (trace (snd (snd (request env_ok (PStr ''http://a'') PNone PNone
          (rk_sized\<lparr>rk_enabled_interception := Some (PBool True)\<rparr>) state0)))) =
     On_request (PObj 2) DefaultHandler \<and>
   \<not> list_ex is_goto (trace (snd (snd (request env_ok (PStr ''http://a'') PNone PNone
          (rk_sized\<lparr>rk_enabled_interception := Some (PBool True)\<rparr>) state0))))"
  unfolding request_def Let_def state0_eq by (simp add: run_simps env_simps)

text \<open>
  Claim C4 as stated fails: when \<^verbatim>\<open>page.waitFor\<close> raises after navigation, \<^verbatim>\<open>request\<close>
  propagates the exception without calling \<^verbatim>\<open>close\<close>; the page and the browser stay open
  and the controller stays initialized.
\<close>

theorem close_skipped_counterexample:
  "fst (request env_wait_fails (PStr ''http://a'') PNone PNone
          (rk_sized\<lparr>rk_wait_for := Some (PStr ''#x'')\<rparr>) state0) =
     Inl (PyppeteerTimeoutError ''waiting failed'') \<and>
   list_ex is_goto (trace (snd (snd (request env_wait_fails (PStr ''http://a'') PNone PNone
          (rk_sized\<lparr>rk_wait_for := Some (PStr ''#x'')\<rparr>) state0)))) \<and>
   \<not> list_ex is_close (trace (snd (snd (request env_wait_fails (PStr ''http://a'') PNone PNone
          (rk_sized\<lparr>rk_wait_for := Some (PStr ''#x'')\<rparr>) state0)))) \<and>
   initialized (fst (snd (request env_wait_fails (PStr ''http://a'') PNone PNone
          (rk_sized\<lparr>rk_wait_for := Some (PStr ''#x'')\<rparr>) state0)))"
  unfolding request_def Let_def state0_eq by (simp add: run_simps env_simps)

subsection \<open>What every step keeps, and when a step returns\<close>

lemma keeps_ret [keeps_rules]: "keeps g (ret x)"
  by (simp add: keeps_def ret_def)

lemma keeps_raise [keeps_rules]: "keeps g (raise e)"
  by (simp add: keeps_def raise_def)

lemma keeps_lift [keeps_rules]: "keeps g (lift r)"
  by (simp add: keeps_def lift_def)

lemma keeps_get_self [keeps_rules]: "keeps g get_self"
  by (simp add: keeps_def get_self_def)

lemma keeps_lib [keeps_rules]:
  "(\<And>c w t. g (c, w\<lparr>trace := t\<rparr>) = g (c, w)) \<Longrightarrow> keeps g (lib env x)"
  by (simp add: keeps_def lib_def)

lemma keeps_print [keeps_rules]:
  "(\<And>c w t. g (c, w\<lparr>stdout := t\<rparr>) = g (c, w)) \<Longrightarrow> keeps g (print v)"
  by (simp add: keeps_def print_def)

lemma keeps_set_meta_data [keeps_rules]:
  "(\<And>c w d. g (c, w\<lparr>dicts := d\<rparr>) = g (c, w)) \<Longrightarrow> keeps g (set_meta_data k v)"
  by (simp add: keeps_def set_meta_data_def)

lemma keeps_enabled_interception [keeps_rules]:
  "(\<And>c w v. g (c\<lparr>enabled_interception_flag := v\<rparr>, w) = g (c, w)) \<Longrightarrow>
   keeps g (enabled_interception v)"
  by (simp add: keeps_def enabled_interception_def)

lemma keeps_seq [keeps_rules]:
  assumes "keeps g m" and "\<And>a. keeps g (f a)"
  shows "keeps g (seq m f)"
  unfolding keeps_def
proof
  fix s
  obtain r s1 where m: "m s = (r, s1)" by (cases "m s")
  from assms(1) have "g (snd (m s)) = g s" unfolding keeps_def by (rule spec)
  with m have g1: "g s1 = g s" by simp
  show "g (snd (seq m f s)) = g s"
  proof (cases r)
    case (Inl e)
    with m g1 show ?thesis by (simp add: seq_def)
  next
    case (Inr a)
    from assms(2) [of a] have "g (snd (f a s1)) = g s1" unfolding keeps_def by (rule spec)
    with m Inr g1 show ?thesis by (simp add: seq_def)
  qed
qed

lemma keeps_if [keeps_rules]:
  "(c \<Longrightarrow> keeps g a) \<Longrightarrow> (\<not> c \<Longrightarrow> keeps g b) \<Longrightarrow> keeps g (if c then a else b)"
  by simp

lemma keeps_init [keeps_rules]:
  assumes "\<And>c w t. g (c, w\<lparr>trace := t\<rparr>) = g (c, w)"
    and "\<And>c w b. g (c\<lparr>browser := b, initialized := True\<rparr>, w) = g (c, w)"
  shows "keeps g (init env)"
  unfolding keeps_def
proof
  fix s :: state
  show "g (snd (init env s)) = g s"
    by (cases "respond env (trace (snd s)) (AwaitLauncher (launcher (fst s)))")
       (simp_all add: init_app seq_app lib_app assms)
qed

lemma keeps_inject [keeps_rules]:
  "(\<And>c w t. g (c, w\<lparr>trace := t\<rparr>) = g (c, w)) \<Longrightarrow> keeps g (inject env page xs)"
  by (induction xs) (simp_all add: keeps_rules)

lemma keeps_intercept [keeps_rules]:
  "(\<And>c w t. g (c, w\<lparr>trace := t\<rparr>) = g (c, w)) \<Longrightarrow> keeps g (intercept env page callable)"
  unfolding intercept_def by (intro keeps_rules) simp_all

lemma keeps_harvest [keeps_rules]:
  "(\<And>c w t. g (c, w\<lparr>trace := t\<rparr>) = g (c, w)) \<Longrightarrow>
   (\<And>c w d. g (c, w\<lparr>dicts := d\<rparr>) = g (c, w)) \<Longrightarrow>
   keeps g (harvest env page response sr)"
  unfolding harvest_def by (intro keeps_rules) simp_all

lemma keeps_navigate [keeps_rules]:
  assumes "\<And>c w t. g (c, w\<lparr>trace := t\<rparr>) = g (c, w)"
    and "\<And>c w t. g (c, w\<lparr>stdout := t\<rparr>) = g (c, w)"
  shows "keeps g (navigate env page url)"
  unfolding keeps_def
proof
  fix s
  show "g (snd (navigate env page url s)) = g s"
  proof (cases "respond env (trace (snd s)) (Goto page url 30000 ''load'')")
    case (Inr v)
    then show ?thesis by (simp add: navigate_def lib_def assms)
  next
    case (Inl e)
    then show ?thesis
      by (cases e) (simp_all add: navigate_def lib_def seq_def print_def ret_def assms)
  qed
qed

lemma keeps_close [keeps_rules]:
  assumes "\<And>c w t. g (c, w\<lparr>trace := t\<rparr>) = g (c, w)"
    and "\<And>c w. g (c\<lparr>initialized := False\<rparr>, w) = g (c, w)"
  shows "keeps g (close env page)"
proof -
  have "keeps g (\<lambda>s. (Inr (), ((fst s)\<lparr>initialized := False\<rparr>, snd s)))"
    using assms(2) by (simp add: keeps_def)
  then show ?thesis unfolding close_def using assms(1) by (intro keeps_rules) simp_all
qed

lemma keeps_PyppeteerResponse [keeps_rules]: "keeps g (PyppeteerResponse (Some a))"
  by (simp add: PyppeteerResponse_def keeps_rules)




lemma closes_seq:
  assumes "framed (\<lambda>c. \<not> is_close c \<and> \<not> is_new_page c) m"
    and "keeps (\<lambda>s. browser (fst s)) m"
    and "\<And>a. post (closes page) (f a)"
  shows "post (closes page) (seq m f)"
  unfolding post_def
proof (intro allI impI)
  fix s r s'
  assume "seq m f s = (Inr r, s')"
  then obtain a s1 where m: "m s = (Inr a, s1)" and f: "f a s1 = (Inr r, s')"
    by (auto simp: seq_Inr_iff)
  from assms(1) have "frame (\<lambda>c. \<not> is_close c \<and> \<not> is_new_page c) s (snd (m s))"
    unfolding framed_def by (rule spec)
  with m obtain evs1 where e1: "trace (snd s1) = trace (snd s) @ evs1"
      "list_all (\<lambda>c. \<not> is_close c \<and> \<not> is_new_page c) evs1"
    by (auto simp: frame_def)
  from assms(2) have "browser (fst (snd (m s))) = browser (fst s)"
    unfolding keeps_def by (rule spec)
  with m have b1: "browser (fst s1) = browser (fst s)" by simp
  from assms(3) [of a] f have "closes page s1 r s'" unfolding post_def by blast
  then obtain evs where e2: "trace (snd s') =
        trace (snd s1) @ evs @ [ClosePage page, CloseBrowser (browser (fst s1))]"
      "list_all (\<lambda>c. \<not> is_close c \<and> \<not> is_new_page c) evs"
    and b2: "browser (fst s') = browser (fst s1)" and ni: "\<not> initialized (fst s')"
    by (auto simp: closes_def)
  from e1 e2 b1 have "trace (snd s') =
        trace (snd s) @ (evs1 @ evs) @ [ClosePage page, CloseBrowser (browser (fst s))] \<and>
        list_all (\<lambda>c. \<not> is_close c \<and> \<not> is_new_page c) (evs1 @ evs)" by simp
  then have "\<exists>evs. trace (snd s') =
        trace (snd s) @ evs @ [ClosePage page, CloseBrowser (browser (fst s))] \<and>
        list_all (\<lambda>c. \<not> is_close c \<and> \<not> is_new_page c) evs" by (rule exI)
  with ni b1 b2 show "closes page s r s'" unfolding closes_def by simp
qed

lemma closes_tail:
  "post (closes page) (seq (close env page) (\<lambda>_. seq get_self (\<lambda>self.
     PyppeteerResponse (Some (meta_data_ref self)))))"
  unfolding post_def closes_def
  by (auto simp: seq_Inr_iff close_def lib_def get_self_def PyppeteerResponse_def ret_def)

lemma opened_seq:
  assumes "framed (\<lambda>c. \<not> is_close c \<and> \<not> is_new_page c) m"
    and "\<And>a. post (\<lambda>s r s'. closes_opened_page env s s') (f a)"
  shows "post (\<lambda>s r s'. closes_opened_page env s s') (seq m f)"
  unfolding post_def
proof (intro allI impI)
  fix s r s'
  assume "seq m f s = (Inr r, s')"
  then obtain a s1 where m: "m s = (Inr a, s1)" and f: "f a s1 = (Inr r, s')"
    by (auto simp: seq_Inr_iff)
  from assms(1) have "frame (\<lambda>c. \<not> is_close c \<and> \<not> is_new_page c) s (snd (m s))"
    unfolding framed_def by (rule spec)
  with m obtain evs1 where e1: "trace (snd s1) = trace (snd s) @ evs1"
      "list_all (\<lambda>c. \<not> is_close c \<and> \<not> is_new_page c) evs1"
    by (auto simp: frame_def)
  from assms(2) [of a] f have "closes_opened_page env s1 s'" unfolding post_def by blast
  then obtain pre evs page where e2: "trace (snd s') =
          trace (snd s1) @ pre @ [NewPage (browser (fst s'))] @ evs @
            [ClosePage page, CloseBrowser (browser (fst s'))]"
      "respond env (trace (snd s1) @ pre) (NewPage (browser (fst s'))) = Inr page"
      "list_all (\<lambda>c. \<not> is_close c \<and> \<not> is_new_page c) (pre @ evs)"
    and ni: "\<not> initialized (fst s')"
    unfolding closes_opened_page_def by blast
  from e1 e2 have "trace (snd s') =
          trace (snd s) @ (evs1 @ pre) @ [NewPage (browser (fst s'))] @ evs @
            [ClosePage page, CloseBrowser (browser (fst s'))] \<and>
      respond env (trace (snd s) @ (evs1 @ pre)) (NewPage (browser (fst s'))) = Inr page \<and>
      list_all (\<lambda>c. \<not> is_close c \<and> \<not> is_new_page c) ((evs1 @ pre) @ evs)" by simp
  then have "\<exists>pre evs page. trace (snd s') =
          trace (snd s) @ pre @ [NewPage (browser (fst s'))] @ evs @
            [ClosePage page, CloseBrowser (browser (fst s'))] \<and>
      respond env (trace (snd s) @ pre) (NewPage (browser (fst s'))) = Inr page \<and>
      list_all (\<lambda>c. \<not> is_close c \<and> \<not> is_new_page c) (pre @ evs)" by blast
  with ni show "closes_opened_page env s s'" unfolding closes_opened_page_def by simp
qed

lemma opened_head:
  assumes "\<And>page. post (closes page) (k page)"
  shows "post (\<lambda>s r s'. closes_opened_page env s s')
           (seq get_self (\<lambda>self. seq (lib env (NewPage (browser self))) k))"
  unfolding post_def
proof (intro allI impI)
  fix s r s'
  assume "seq get_self (\<lambda>self. seq (lib env (NewPage (browser self))) k) s = (Inr r, s')"
  then have "seq (lib env (NewPage (browser (fst s)))) k s = (Inr r, s')"
    by (simp add: seq_app get_self_app)
  then obtain page s1 where l: "lib env (NewPage (browser (fst s))) s = (Inr page, s1)"
    and k: "k page s1 = (Inr r, s')"
    unfolding seq_Inr_iff by blast
  from l have rp: "respond env (trace (snd s)) (NewPage (browser (fst s))) = Inr page"
    and s1: "s1 = (fst s, (snd s)\<lparr>trace := trace (snd s) @ [NewPage (browser (fst s))]\<rparr>)"
    by (simp_all add: lib_app)
  from assms [of page] k have "closes page s1 r s'" unfolding post_def by blast
  then obtain evs where e: "trace (snd s') =
        trace (snd s1) @ evs @ [ClosePage page, CloseBrowser (browser (fst s1))]"
      "list_all (\<lambda>c. \<not> is_close c \<and> \<not> is_new_page c) evs"
    and b: "browser (fst s') = browser (fst s1)" and ni: "\<not> initialized (fst s')"
    by (auto simp: closes_def)
  from s1 b have bb: "browser (fst s) = browser (fst s')" by simp
  from e s1 bb rp have "trace (snd s') =
          trace (snd s) @ [] @ [NewPage (browser (fst s'))] @ evs @
            [ClosePage page, CloseBrowser (browser (fst s'))] \<and>
      respond env (trace (snd s) @ []) (NewPage (browser (fst s'))) = Inr page \<and>
      list_all (\<lambda>c. \<not> is_close c \<and> \<not> is_new_page c) ([] @ evs)" by simp
  then have "\<exists>pre evs page. trace (snd s') =
          trace (snd s) @ pre @ [NewPage (browser (fst s'))] @ evs @
            [ClosePage page, CloseBrowser (browser (fst s'))] \<and>
      respond env (trace (snd s) @ pre) (NewPage (browser (fst s'))) = Inr page \<and>
      list_all (\<lambda>c. \<not> is_close c \<and> \<not> is_new_page c) (pre @ evs)" by blast
  with ni show "closes_opened_page env s s'" unfolding closes_opened_page_def by simp
qed

lemma request_opened:
  "post (\<lambda>s r s'. closes_opened_page env s s') (request env url ua callable kwargs)"
  unfolding request_def Let_def
  apply (rule opened_seq, (intro framed_rules; simp)[1])
  apply (rule opened_seq, (intro framed_rules; simp)[1])
  apply (rule opened_seq, (intro framed_rules; simp)[1])
  apply (rule opened_head)
  apply (rule closes_tail
         | (rule closes_seq, (intro framed_rules; simp)[1], (intro keeps_rules; simp)[1]))+
  done




lemma cooperative_other:
  "cooperative env \<Longrightarrow> \<not> is_goto c \<Longrightarrow> \<exists>v. respond env h c = Inr v"
  unfolding cooperative_def
proof -
  assume a: "\<forall>h c. if is_goto c
            then (\<exists>v. respond env h c = Inr v \<and> is_resp v) \<or>
                 (\<exists>msg. respond env h c = Inl (PyppeteerTimeoutError msg))
            else (\<exists>v. respond env h c = Inr v)" and n: "\<not> is_goto c"
  from a have "if is_goto c
            then (\<exists>v. respond env h c = Inr v \<and> is_resp v) \<or>
                 (\<exists>msg. respond env h c = Inl (PyppeteerTimeoutError msg))
            else (\<exists>v. respond env h c = Inr v)" by (elim allE)
  with n show ?thesis by simp
qed

lemma cooperative_goto:
  assumes "cooperative env"
  shows "(\<exists>v. respond env h (Goto page url t w) = Inr v \<and> is_resp v) \<or>
         (\<exists>msg. respond env h (Goto page url t w) = Inl (PyppeteerTimeoutError msg))"
proof -
  from assms have "if is_goto (Goto page url t w)
            then (\<exists>v. respond env h (Goto page url t w) = Inr v \<and> is_resp v) \<or>
                 (\<exists>msg. respond env h (Goto page url t w) = Inl (PyppeteerTimeoutError msg))
            else (\<exists>v. respond env h (Goto page url t w) = Inr v)"
    unfolding cooperative_def by (elim allE)
  then show ?thesis by simp
qed

lemma returns_ret [returns_rules]: "returns (\<lambda>_. True) (ret x)"
  by (simp add: returns_def ret_def)

lemma returns_get_self [returns_rules]: "returns (\<lambda>_. True) get_self"
  by (simp add: returns_def get_self_def)

lemma returns_print [returns_rules]: "returns (\<lambda>_. True) (print v)"
  by (simp add: returns_def print_def)

lemma returns_set_meta_data [returns_rules]: "returns (\<lambda>_. True) (set_meta_data k v)"
  by (simp add: returns_def set_meta_data_def)

lemma returns_pop_required [returns_rules]:
  "entry \<noteq> None \<Longrightarrow> returns (\<lambda>_. True) (lift (pop_required key entry))"
  by (cases entry) (simp_all add: returns_def lift_def pop_required_def)

lemma returns_lib [returns_rules]:
  assumes "cooperative env" and "\<not> is_goto c"
  shows "returns (\<lambda>_. True) (lib env c)"
  unfolding returns_def
proof
  fix s :: state
  from cooperative_other [OF assms] obtain v where "respond env (trace (snd s)) c = Inr v"
    by blast
  then show "\<exists>r s'. lib env c s = (Inr r, s') \<and> True" by (simp add: lib_app)
qed

lemma returns_seq:
  assumes "returns P m" and "\<And>a. P a \<Longrightarrow> returns Q (f a)"
  shows "returns Q (seq m f)"
  unfolding returns_def
proof
  fix s
  from assms(1) obtain a s1 where m: "m s = (Inr a, s1)" and p: "P a"
    unfolding returns_def by blast
  from assms(2) [OF p] obtain r s' where "f a s1 = (Inr r, s')" and "Q r"
    unfolding returns_def by blast
  with m show "\<exists>r s'. seq m f s = (Inr r, s') \<and> Q r" by (simp add: seq_app)
qed

lemma returns_then:
  "returns (\<lambda>_. True) m \<Longrightarrow> (\<And>a. returns Q (f a)) \<Longrightarrow> returns Q (seq m f)"
  by (rule returns_seq)

lemma returns_if [returns_rules]:
  "(c \<Longrightarrow> returns Q a) \<Longrightarrow> (\<not> c \<Longrightarrow> returns Q b) \<Longrightarrow> returns Q (if c then a else b)"
  by simp

lemma returns_init [returns_rules]:
  assumes "cooperative env"
  shows "returns (\<lambda>_. True) (init env)"
  unfolding returns_def
proof
  fix s :: state
  from cooperative_other [OF assms, of "AwaitLauncher (launcher (fst s))" "trace (snd s)"]
  obtain v where "respond env (trace (snd s)) (AwaitLauncher (launcher (fst s))) = Inr v"
    by auto
  then show "\<exists>r s'. init env s = (Inr r, s') \<and> True"
    by (simp add: init_app seq_app lib_app)
qed

lemma returns_inject [returns_rules]:
  "cooperative env \<Longrightarrow> returns (\<lambda>_. True) (inject env page xs)"
proof (induction xs)
  case Nil
  show ?case by (simp add: returns_ret)
next
  case (Cons x xs)
  have "returns (\<lambda>_. True) (lib env (EvaluateOnNewDocument page x))"
    using Cons.prems by (rule returns_lib) simp
  then show ?case using Cons.IH [OF Cons.prems] by (simp add: returns_then)
qed

lemma returns_navigate:
  assumes "cooperative env"
  shows "returns is_resp (navigate env page url)"
  unfolding returns_def
proof
  fix s :: state
  from cooperative_goto [OF assms, of "trace (snd s)" page url 30000 "''load''"]
  show "\<exists>r s'. navigate env page url s = (Inr r, s') \<and> is_resp r"
  proof (elim disjE exE conjE)
    fix v
    assume "respond env (trace (snd s)) (Goto page url 30000 ''load'') = Inr v" "is_resp v"
    then show ?thesis by (simp add: navigate_app lib_app)
  next
    fix msg
    assume "respond env (trace (snd s)) (Goto page url 30000 ''load'') =
              Inl (PyppeteerTimeoutError msg)"
    then show ?thesis
      by (simp add: navigate_app lib_app seq_app print_app ret_app synthetic_response_def
          is_resp_def)
  qed
qed

lemma returns_attr [returns_rules]:
  "is_resp response \<Longrightarrow> name \<in> {''status'', ''request'', ''headers''} \<Longrightarrow>
   returns (\<lambda>_. True) (lift (attr response name))"
  by (cases response) (auto simp: is_resp_def returns_def lift_def)

lemma returns_harvest [returns_rules]:
  "cooperative env \<Longrightarrow> is_resp response \<Longrightarrow>
   returns (\<lambda>_. True) (harvest env page response sr)"
  unfolding harvest_def by (rule returns_then | rule returns_rules | simp)+

lemma returns_close [returns_rules]:
  assumes "cooperative env"
  shows "returns (\<lambda>_. True) (close env page)"
  unfolding returns_def
proof
  fix s :: state
  from cooperative_other [OF assms, of "ClosePage page" "trace (snd s)"]
  obtain v1 where r1: "respond env (trace (snd s)) (ClosePage page) = Inr v1" by auto
  from cooperative_other [OF assms, of "CloseBrowser (browser (fst s))"
      "trace (snd s) @ [ClosePage page]"]
  obtain v2 where r2: "respond env (trace (snd s) @ [ClosePage page])
      (CloseBrowser (browser (fst s))) = Inr v2" by auto
  from r1 r2 show "\<exists>r s'. close env page s = (Inr r, s') \<and> True"
    by (simp add: close_app seq_app lib_app get_self_app)
qed

lemma returns_PyppeteerResponse [returns_rules]:
  "returns (\<lambda>_. True) (PyppeteerResponse (Some a))"
  by (simp add: returns_def PyppeteerResponse_app)

lemma returns_after_navigate:
  "cooperative env \<Longrightarrow> (\<And>a. is_resp a \<Longrightarrow> returns Q (f a)) \<Longrightarrow>
   returns Q (seq (navigate env page url) f)"
  by (rule returns_seq [OF returns_navigate])

lemma returns_arm:
  assumes "cooperative env" and "v \<longrightarrow> iscoroutinefunction callable"
    and "\<And>a. returns Q (k a)"
  shows "returns Q (seq (enabled_interception v) (\<lambda>_. seq (intercept env page callable) k))"
  unfolding returns_def
proof
  fix s :: state
  let ?s1 = "((fst s)\<lparr>enabled_interception_flag := v\<rparr>, snd s)"
  have step: "seq (enabled_interception v) (\<lambda>_. seq (intercept env page callable) k) s =
              seq (intercept env page callable) k ?s1"
    by (simp add: seq_app enabled_interception_app)
  have "\<exists>s2. intercept env page callable ?s1 = (Inr (), s2)"
  proof (cases v)
    case False
    then show ?thesis by (simp add: intercept_app seq_app get_self_app ret_app)
  next
    case True
    with assms(2) have co: "iscoroutinefunction callable" by simp
    let ?h1 = "trace (snd s)"
    from cooperative_other [OF assms(1), of "SetRequestInterception page True" ?h1]
    obtain v1 where r1: "respond env ?h1 (SetRequestInterception page True) = Inr v1" by auto
    let ?h2 = "?h1 @ [SetRequestInterception page True]"
    from cooperative_other [OF assms(1), of "On_request page DefaultHandler" ?h2]
    obtain v2 where r2: "respond env ?h2 (On_request page DefaultHandler) = Inr v2" by auto
    from cooperative_other [OF assms(1), of "On_request page (UserHandler callable)" ?h2]
    obtain v3 where r3: "respond env ?h2 (On_request page (UserHandler callable)) = Inr v3"
      by auto
    let ?h3 = "?h2 @ [On_request page DefaultHandler]"
    from cooperative_other [OF assms(1), of "On_request page (UserHandler callable)" ?h3]
    obtain v4 where r4: "respond env ?h3 (On_request page (UserHandler callable)) = Inr v4"
      by auto
    from True co r1 r2 r3 r4 show ?thesis
      by (simp add: intercept_app seq_app get_self_app ret_app lib_app)
  qed
  then obtain s2 where i: "intercept env page callable ?s1 = (Inr (), s2)" by blast
  from assms(3) [of "()"] obtain r s' where "k () s2 = (Inr r, s')" and "Q r"
    unfolding returns_def by blast
  with step i show "\<exists>r s'. seq (enabled_interception v)
      (\<lambda>_. seq (intercept env page callable) k) s = (Inr r, s') \<and> Q r"
    by (simp add: seq_app)
qed

lemma request_returns:
  assumes "cooperative env"
    and "rk_page_width kwargs \<noteq> None" and "rk_page_height kwargs \<noteq> None"
    and "truthy (pop (rk_enabled_interception kwargs) (PBool False)) \<longrightarrow>
           iscoroutinefunction callable"
  shows "returns (\<lambda>_. True) (request env url ua callable kwargs)"
  unfolding request_def Let_def
  by (rule returns_arm | rule returns_after_navigate | rule returns_then | rule returns_rules
      | simp add: assms)+

lemma cooperative_env_timeout: "cooperative env_timeout"
  unfolding cooperative_def
proof (intro allI)
  fix h c
  show "if is_goto c
        then (\<exists>v. respond env_timeout h c = Inr v \<and> is_resp v) \<or>
             (\<exists>msg. respond env_timeout h c = Inl (PyppeteerTimeoutError msg))
        else (\<exists>v. respond env_timeout h c = Inr v)"
    by (cases c) (simp_all add: env_timeout_def lib_ok_def is_resp_def)
qed

lemma timeout_render:
  "fst (request env_timeout (PStr ''http://a'') PNone PNone rk_full state0) =
     Inr \<lparr>meta_data = 0\<rparr> \<and>
   filter (\<lambda>c. is_new_page c \<or> is_goto c \<or> is_close c)
     (trace (snd (snd (request env_timeout (PStr ''http://a'') PNone PNone rk_full state0)))) =
     [NewPage (PObj 1), Goto (PObj 2) (PStr ''http://a'') 30000 ''load'',
      ClosePage (PObj 2), CloseBrowser (PObj 1)] \<and>
   stdout (snd (snd (request env_timeout (PStr ''http://a'') PNone PNone rk_full state0))) =
     [PStr ''Error during page.goto(): Navigation Timeout Exceeded'']"
  unfolding request_def Let_def state0_eq by (simp add: run_simps env_simps rk_full_def)

text \<open>
  Claim C4, as amended. Whenever \<^verbatim>\<open>request\<close> returns a response, it has opened exactly one
  page and its calls end with exactly one \<^verbatim>\<open>close()\<close> of that page (the value \<^verbatim>\<open>newPage()\<close>
  returned) followed by \<^verbatim>\<open>close()\<close> of the browser, no close call comes before them, and
  the controller is left uninitialized. And \<^verbatim>\<open>request\<close> does return a response, on the
  normal path and on the navigation-timeout path alike, with or without delay,
  wait-condition and script, whenever \<^verbatim>\<open>page_width\<close> and \<^verbatim>\<open>page_height\<close> are passed, the
  handler is a coroutine function if interception is enabled, navigation yields a response
  or times out, and every other library call succeeds.
\<close>

theorem request_closes_once:
  "(request env url ua callable kwargs s = (Inr r, s') \<longrightarrow> closes_opened_page env s s') \<and>
   (cooperative env \<longrightarrow> rk_page_width kwargs \<noteq> None \<longrightarrow> rk_page_height kwargs \<noteq> None \<longrightarrow>
    (truthy (pop (rk_enabled_interception kwargs) (PBool False)) \<longrightarrow>
       iscoroutinefunction callable) \<longrightarrow>
    (\<exists>r1 s1. request env url ua callable kwargs s = (Inr r1, s1) \<and>
              closes_opened_page env s s1))"
proof (intro conjI impI)
  assume "request env url ua callable kwargs s = (Inr r, s')"
  with request_opened [of env url ua callable kwargs]
  show "closes_opened_page env s s'" unfolding post_def by blast
next
  assume "cooperative env" "rk_page_width kwargs \<noteq> None" "rk_page_height kwargs \<noteq> None"
    "truthy (pop (rk_enabled_interception kwargs) (PBool False)) \<longrightarrow>
       iscoroutinefunction callable"
  then have "returns (\<lambda>_. True) (request env url ua callable kwargs)"
    by (rule request_returns)
  then obtain r1 s1 where run: "request env url ua callable kwargs s = (Inr r1, s1)"
    unfolding returns_def by blast
  with request_opened [of env url ua callable kwargs]
  have "closes_opened_page env s s1" unfolding post_def by blast
  with run show "\<exists>r1 s1. request env url ua callable kwargs s = (Inr r1, s1) \<and>
              closes_opened_page env s s1" by blast
qed

theorem request_closes_once_witness:
  "(\<exists>r1 s1. request env_timeout (PStr ''http://a'') PNone PNone rk_full state0 = (Inr r1, s1) \<and>
            closes_opened_page env_timeout state0 s1) \<and>
   filter (\<lambda>c. is_new_page c \<or> is_goto c \<or> is_close c)
     (trace (snd (snd (request env_timeout (PStr ''http://a'') PNone PNone rk_full state0)))) =
     [NewPage (PObj 1), Goto (PObj 2) (PStr ''http://a'') 30000 ''load'',
      ClosePage (PObj 2), CloseBrowser (PObj 1)] \<and>
   stdout (snd (snd (request env_timeout (PStr ''http://a'') PNone PNone rk_full state0))) =
     [PStr ''Error during page.goto(): Navigation Timeout Exceeded'']"
proof -
  have a: "rk_page_width rk_full \<noteq> None" "rk_page_height rk_full \<noteq> None"
    "truthy (pop (rk_enabled_interception rk_full) (PBool False)) \<longrightarrow>
       iscoroutinefunction PNone"
    by (simp_all add: rk_full_def pop_def)
  note t = request_closes_once [of env_timeout "PStr ''http://a''" PNone PNone rk_full state0]
  from conjunct2 [OF t] cooperative_env_timeout a
  have "\<exists>r1 s1. request env_timeout (PStr ''http://a'') PNone PNone rk_full state0 =
           (Inr r1, s1) \<and> closes_opened_page env_timeout state0 s1"
    by blast
  then show ?thesis using conjunct2 [OF timeout_render] by (rule conjI)
qed

subsection \<open>Navigation timeout\<close>

lemma navigate_times_out:
  assumes "times_out env url msg"
  shows "navigate env page url s =
           (Inr synthetic_response,
            (fst s, (snd s)\<lparr>trace := trace (snd s) @ [Goto page url 30000 ''load''],
                            stdout := stdout (snd s) @
                              [PStr (''Error during page.goto(): '' @ msg)]\<rparr>))"
proof -
  from assms have "respond env (trace (snd s)) (Goto page url 30000 ''load'') =
      Inl (PyppeteerTimeoutError msg)" unfolding times_out_def by blast
  then show ?thesis by (simp add: navigate_app lib_app seq_app print_app ret_app)
qed

lemma navigate_catches: "fst (navigate env page url s) \<noteq> Inl (PyppeteerTimeoutError m)"
proof (cases "respond env (trace (snd s)) (Goto page url 30000 ''load'')")
  case (Inr v)
  then show ?thesis by (simp add: navigate_app lib_app)
next
  case (Inl e)
  then show ?thesis
    by (cases e) (simp_all add: navigate_app lib_app seq_app print_app ret_app)
qed

lemma says_seq:
  assumes "keeps (\<lambda>s. stdout (snd s)) m" and "\<And>a. post (says out) (f a)"
  shows "post (says out) (seq m f)"
  unfolding post_def
proof (intro allI impI)
  fix s r s'
  assume "seq m f s = (Inr r, s')"
  then obtain a s1 where m: "m s = (Inr a, s1)" and f: "f a s1 = (Inr r, s')"
    unfolding seq_Inr_iff by blast
  from assms(1) have "stdout (snd (snd (m s))) = stdout (snd s)"
    unfolding keeps_def by (rule spec)
  with m have k: "stdout (snd s1) = stdout (snd s)" by simp
  from assms(2) [of a] f have "says out s1 r s'" unfolding post_def by blast
  with k show "says out s r s'" by (simp add: says_def)
qed

lemma says_navigate:
  assumes "times_out env url msg" and "\<And>a. keeps (\<lambda>s. stdout (snd s)) (f a)"
  shows "post (says [PStr (''Error during page.goto(): '' @ msg)])
           (seq (navigate env page url) f)"
  unfolding post_def
proof (intro allI impI)
  fix s :: state and r s'
  let ?s1 = "(fst s, (snd s)\<lparr>trace := trace (snd s) @ [Goto page url 30000 ''load''],
                            stdout := stdout (snd s) @
                              [PStr (''Error during page.goto(): '' @ msg)]\<rparr>)"
  assume "seq (navigate env page url) f s = (Inr r, s')"
  then have f: "f synthetic_response ?s1 = (Inr r, s')"
    by (simp add: seq_app navigate_times_out [OF assms(1)])
  from assms(2) [of synthetic_response]
  have "stdout (snd (snd (f synthetic_response ?s1))) = stdout (snd ?s1)"
    unfolding keeps_def by (rule spec)
  with f show "says [PStr (''Error during page.goto(): '' @ msg)] s r s'"
    by (simp add: says_def)
qed

lemma request_says:
  assumes "times_out env url msg"
  shows "post (says [PStr (''Error during page.goto(): '' @ msg)])
           (request env url ua callable kwargs)"
  unfolding request_def Let_def
  by ((rule says_navigate [OF assms], (intro keeps_rules; simp)[1])
      | (rule says_seq, (intro keeps_rules; simp)[1]))+

lemma carries_seq:
  assumes "\<And>a. post (carries st rq hs) (f a)"
  shows "post (carries st rq hs) (seq m f)"
  unfolding post_def
proof (intro allI impI)
  fix s r s'
  assume "seq m f s = (Inr r, s')"
  then obtain a s1 where m: "m s = (Inr a, s1)" and f: "f a s1 = (Inr r, s')"
    unfolding seq_Inr_iff by blast
  from assms [of a] f have "carries st rq hs s1 r s'" unfolding post_def by blast
  then show "carries st rq hs s r s'" by (simp add: carries_def)
qed

lemma carries_navigate:
  assumes "times_out env url msg"
    and "post (carries st rq hs) (f (PResp (PInt 504) PNone (PDict [])))"
  shows "post (carries st rq hs) (seq (navigate env page url) f)"
  unfolding post_def
proof (intro allI impI)
  fix s :: state and r s'
  let ?s1 = "(fst s, (snd s)\<lparr>trace := trace (snd s) @ [Goto page url 30000 ''load''],
                            stdout := stdout (snd s) @
                              [PStr (''Error during page.goto(): '' @ msg)]\<rparr>)"
  assume "seq (navigate env page url) f s = (Inr r, s')"
  then have f: "f synthetic_response ?s1 = (Inr r, s')"
    by (simp add: seq_app navigate_times_out [OF assms(1)])
  with assms(2) have "carries st rq hs ?s1 r s'"
    unfolding post_def synthetic_response_def by blast
  then show "carries st rq hs s r s'" by (simp add: carries_def)
qed

lemma harvest_sets:
  assumes "harvest env page (PResp st rq hs) sr s = (Inr a, s1)"
  shows "dicts (snd s1) (meta_data_ref (fst s1)) ''status'' = Some st \<and>
         dicts (snd s1) (meta_data_ref (fst s1)) ''request'' = Some rq \<and>
         dicts (snd s1) (meta_data_ref (fst s1)) ''headers'' = Some hs"
proof (cases "respond env (trace (snd s)) (Cookies page)")
  case (Inl e)
  with assms show ?thesis by (simp add: harvest_app seq_app lib_app)
next
  case c: (Inr v)
  show ?thesis
  proof (cases "respond env (trace (snd s) @ [Cookies page]) (Content page)")
    case (Inl e)
    with c assms show ?thesis by (simp add: harvest_app seq_app lib_app set_meta_data_app)
  next
    case (Inr v')
    with c assms show ?thesis
      by (auto simp: harvest_app seq_app lib_app set_meta_data_app lift_app)
  qed
qed

lemma carries_tail:
  "post (carries st rq hs)
     (seq (harvest env page (PResp st rq hs) sr) (\<lambda>_. seq (close env page) (\<lambda>_.
        seq get_self (\<lambda>self. PyppeteerResponse (Some (meta_data_ref self))))))"
  unfolding post_def
proof (intro allI impI)
  fix s r s'
  assume "seq (harvest env page (PResp st rq hs) sr) (\<lambda>_. seq (close env page) (\<lambda>_.
        seq get_self (\<lambda>self. PyppeteerResponse (Some (meta_data_ref self))))) s = (Inr r, s')"
  then obtain a s1 b s2 where h: "harvest env page (PResp st rq hs) sr s = (Inr a, s1)"
    and c: "close env page s1 = (Inr b, s2)"
    and e: "seq get_self (\<lambda>self. PyppeteerResponse (Some (meta_data_ref self))) s2 = (Inr r, s')"
    unfolding seq_Inr_iff by blast
  from e have r: "r = \<lparr>meta_data = meta_data_ref (fst s2)\<rparr>" and s': "s' = s2"
    by (auto simp: seq_app get_self_app PyppeteerResponse_app)
  have "keeps (\<lambda>s. (dicts (snd s), meta_data_ref (fst s))) (close env page)"
    by (intro keeps_rules; simp)
  then have "(dicts (snd (snd (close env page s1))), meta_data_ref (fst (snd (close env page s1))))
             = (dicts (snd s1), meta_data_ref (fst s1))"
    unfolding keeps_def by (rule spec)
  with c have k: "dicts (snd s2) = dicts (snd s1)" "meta_data_ref (fst s2) = meta_data_ref (fst s1)"
    by simp_all
  from harvest_sets [OF h] k r s' show "carries st rq hs s r s'"
    by (simp add: carries_def get_status_def get_request_def get_headers_def dict_get_def)
qed

lemma request_carries:
  assumes "times_out env url msg"
  shows "post (carries (PInt 504) PNone (PDict [])) (request env url ua callable kwargs)"
  unfolding request_def Let_def
  by (rule carries_navigate [OF assms] | rule carries_tail | rule carries_seq)+

lemma times_out_env_timeout: "times_out env_timeout url ''Navigation Timeout Exceeded''"
  by (simp add: times_out_def env_timeout_def)

lemma timeout_response:
  "fst (request env_timeout (PStr ''http://a'') PNone PNone rk_sized state0) =
     Inr \<lparr>meta_data = 0\<rparr> \<and>
   accessors (snd (snd (request env_timeout (PStr ''http://a'') PNone PNone rk_sized state0)))
     \<lparr>meta_data = 0\<rparr> =
     (PStr ''<html></html>'', PDict [], PDict [], PInt 504, PNone, PNone)"
  unfolding request_def Let_def state0_eq
  by (simp add: run_simps env_simps accessors_def get_text_def get_cookies_def
      get_headers_def get_status_def get_request_def get_script_result_def dict_get_def)

text \<open>
  Claim C5. When \<^verbatim>\<open>page.goto\<close> raises pyppeteer's timeout error (and \<^verbatim>\<open>page_width\<close> and
  \<^verbatim>\<open>page_height\<close> are passed, the handler is a coroutine function if interception is
  enabled, and the other library calls succeed), \<^verbatim>\<open>request\<close> does not raise: it returns a
  response whose status is 504, whose request is \<^verbatim>\<open>None\<close> and whose headers are empty, and
  the only thing it prints is the line \<^verbatim>\<open>Error during page.goto(): \<close> followed by the error's
  message. In every environment, the navigation step never lets a timeout error escape.
\<close>

theorem navigation_timeout_recovered:
  assumes "times_out env url msg" and "cooperative env"
    and "rk_page_width kwargs \<noteq> None" and "rk_page_height kwargs \<noteq> None"
    and "truthy (pop (rk_enabled_interception kwargs) (PBool False)) \<longrightarrow>
           iscoroutinefunction callable"
  shows "(\<exists>r s'. request env url ua callable kwargs s = (Inr r, s') \<and>
            get_status (snd s') r = PInt 504 \<and>
            get_request (snd s') r = PNone \<and>
            get_headers (snd s') r = PDict [] \<and>
            stdout (snd s') =
              stdout (snd s) @ [PStr (''Error during page.goto(): '' @ msg)]) \<and>
         (\<forall>page t m. fst (navigate env page url t) \<noteq> Inl (PyppeteerTimeoutError m))"
proof (rule conjI)
  from assms(2-5) have "returns (\<lambda>_. True) (request env url ua callable kwargs)"
    by (rule request_returns)
  then obtain r s' where run: "request env url ua callable kwargs s = (Inr r, s')"
    unfolding returns_def by blast
  from request_carries [OF assms(1), of ua callable kwargs] run
  have "carries (PInt 504) PNone (PDict []) s r s'" unfolding post_def by blast
  then have c: "get_status (snd s') r = PInt 504" "get_request (snd s') r = PNone"
    "get_headers (snd s') r = PDict []" by (simp_all add: carries_def)
  from request_says [OF assms(1), of ua callable kwargs] run
  have "says [PStr (''Error during page.goto(): '' @ msg)] s r s'" unfolding post_def by blast
  then have "stdout (snd s') = stdout (snd s) @ [PStr (''Error during page.goto(): '' @ msg)]"
    by (simp add: says_def)
  with run c show "\<exists>r s'. request env url ua callable kwargs s = (Inr r, s') \<and>
            get_status (snd s') r = PInt 504 \<and>
            get_request (snd s') r = PNone \<and>
            get_headers (snd s') r = PDict [] \<and>
            stdout (snd s') =
              stdout (snd s) @ [PStr (''Error during page.goto(): '' @ msg)]" by blast
next
  show "\<forall>page t m. fst (navigate env page url t) \<noteq> Inl (PyppeteerTimeoutError m)"
    by (intro allI) (rule navigate_catches)
qed

theorem navigation_timeout_recovered_witness:
  "(\<exists>r s'. request env_timeout (PStr ''http://a'') PNone PNone rk_sized state0 = (Inr r, s') \<and>
            get_status (snd s') r = PInt 504 \<and>
            get_request (snd s') r = PNone \<and>
            get_headers (snd s') r = PDict [] \<and>
            stdout (snd s') =
              stdout (snd state0) @
                [PStr (''Error during page.goto(): '' @ ''Navigation Timeout Exceeded'')]) \<and>
   fst (request env_timeout (PStr ''http://a'') PNone PNone rk_sized state0) =
     Inr \<lparr>meta_data = 0\<rparr> \<and>
   accessors (snd (snd (request env_timeout (PStr ''http://a'') PNone PNone rk_sized state0)))
     \<lparr>meta_data = 0\<rparr> =
     (PStr ''<html></html>'', PDict [], PDict [], PInt 504, PNone, PNone)"
proof -
  have a: "rk_page_width rk_sized \<noteq> None" "rk_page_height rk_sized \<noteq> None"
    "truthy (pop (rk_enabled_interception rk_sized) (PBool False)) \<longrightarrow>
       iscoroutinefunction PNone"
    by (simp_all add: rk_sized_def rk_none_def pop_def)
  note t = navigation_timeout_recovered [OF times_out_env_timeout cooperative_env_timeout a,
      where url = "PStr ''http://a''" and s = state0]
  from conjunct1 [OF t] timeout_response show ?thesis by (rule conjI)
qed

subsection \<open>A handler that is not a coroutine function\<close>

lemma halts_seq:
  assumes "framed P m" and "\<And>a. halts P (f a)"
  shows "halts P (seq m f)"
  unfolding halts_def
proof
  fix s :: state
  obtain r s1 where m: "m s = (r, s1)" by (cases "m s")
  from assms(1) have "frame P s (snd (m s))" unfolding framed_def by (rule spec)
  with m have f1: "frame P s s1" by simp
  show "(\<exists>e. fst (seq m f s) = Inl e) \<and> frame P s (snd (seq m f s))"
  proof (cases r)
    case (Inl e)
    with m f1 show ?thesis by (simp add: seq_app)
  next
    case (Inr a)
    from assms(2) [of a] have h: "(\<exists>e. fst (f a s1) = Inl e) \<and> frame P s1 (snd (f a s1))"
      unfolding halts_def by (rule spec)
    from f1 conjunct2 [OF h] have "frame P s (snd (f a s1))" by (rule frame_trans)
    with conjunct1 [OF h] m Inr show ?thesis by (simp add: seq_app)
  qed
qed

lemma intercept_rejects:
  assumes "enabled_interception_flag (fst s)" and "\<not> iscoroutinefunction callable"
  shows "\<exists>e. fst (intercept env page callable s) = Inl e"
proof (cases "respond env (trace (snd s)) (SetRequestInterception page True)")
  case (Inl e)
  with assms show ?thesis by (simp add: intercept_app seq_app get_self_app lib_app)
next
  case r1: (Inr v)
  show ?thesis
  proof (cases "truthy callable")
    case True
    with r1 assms show ?thesis
      by (simp add: intercept_app seq_app get_self_app lib_app ret_app raise_app)
  next
    case False
    with r1 assms show ?thesis
      by (cases "respond env (trace (snd s) @ [SetRequestInterception page True])
                   (On_request page DefaultHandler)")
         (simp_all add: intercept_app seq_app get_self_app lib_app ret_app raise_app)
  qed
qed

lemma halts_arm:
  assumes "v" and "\<not> iscoroutinefunction callable"
    and "\<And>b. P (SetRequestInterception page b)" and "\<And>h. P (On_request page h)"
  shows "halts P (seq (enabled_interception v) (\<lambda>_. seq (intercept env page callable) k))"
  unfolding halts_def
proof
  fix s :: state
  let ?s1 = "((fst s)\<lparr>enabled_interception_flag := v\<rparr>, snd s)"
  let ?m = "seq (enabled_interception v) (\<lambda>_. seq (intercept env page callable) k)"
  from assms(1) have "enabled_interception_flag (fst ?s1)" by simp
  from intercept_rejects [OF this assms(2), of env page]
  obtain e where "fst (intercept env page callable ?s1) = Inl e" by blast
  then obtain s2 where i: "intercept env page callable ?s1 = (Inl e, s2)"
    by (cases "intercept env page callable ?s1") simp
  then have run: "?m s = (Inl e, s2)"
    by (simp add: seq_app enabled_interception_app)
  have "framed P (seq (enabled_interception v) (\<lambda>_. intercept env page callable))"
    by (intro framed_rules) (simp_all add: assms)
  then have "frame P s (snd (seq (enabled_interception v)
      (\<lambda>_. intercept env page callable) s))"
    unfolding framed_def by (rule spec)
  with i have "frame P s s2"
    by (simp add: seq_app enabled_interception_app)
  with run show "(\<exists>e. fst (?m s) = Inl e) \<and> frame P s (snd (?m s))" by simp
qed

lemma request_halts:
  assumes "truthy (pop (rk_enabled_interception kwargs) (PBool False))"
    and "\<not> iscoroutinefunction callable"
  shows "halts (\<lambda>c. \<not> is_goto c) (request env url ua callable kwargs)"
  unfolding request_def Let_def
  by (rule halts_arm | (rule halts_seq, (intro framed_rules; simp)[1]) | simp add: assms)+

lemma raises_then:
  assumes "returns (\<lambda>_. True) m" and "\<And>a. raises e (f a)"
  shows "raises e (seq m f)"
  unfolding raises_def
proof
  fix s :: state
  from assms(1) obtain a s1 where m: "m s = (Inr a, s1)" unfolding returns_def by blast
  from assms(2) [of a] have "fst (f a s1) = Inl e" unfolding raises_def by (rule spec)
  with m show "fst (seq m f s) = Inl e" by (simp add: seq_app)
qed

lemma raises_arm:
  assumes "cooperative env" and "v" and "\<not> iscoroutinefunction callable"
  shows "raises (TypeError ''callable must be coroutine function.'')
           (seq (enabled_interception v) (\<lambda>_. seq (intercept env page callable) k))"
  unfolding raises_def
proof
  fix s :: state
  let ?h1 = "trace (snd s)"
  from cooperative_other [OF assms(1), of "SetRequestInterception page True" ?h1]
  obtain v1 where r1: "respond env ?h1 (SetRequestInterception page True) = Inr v1" by auto
  let ?h2 = "?h1 @ [SetRequestInterception page True]"
  from cooperative_other [OF assms(1), of "On_request page DefaultHandler" ?h2]
  obtain v2 where r2: "respond env ?h2 (On_request page DefaultHandler) = Inr v2" by auto
  from assms(2,3) r1 r2
  show "fst (seq (enabled_interception v) (\<lambda>_. seq (intercept env page callable) k) s) =
          Inl (TypeError ''callable must be coroutine function.'')"
    by (simp add: seq_app enabled_interception_app intercept_app get_self_app lib_app
        ret_app raise_app)
qed

lemma request_raises:
  assumes "cooperative env"
    and "rk_page_width kwargs \<noteq> None" and "rk_page_height kwargs \<noteq> None"
    and "truthy (pop (rk_enabled_interception kwargs) (PBool False))"
    and "\<not> iscoroutinefunction callable"
  shows "raises (TypeError ''callable must be coroutine function.'')
           (request env url ua callable kwargs)"
  unfolding request_def Let_def
  by (rule raises_arm | rule raises_then | rule returns_then | rule returns_rules
      | simp add: assms)+

lemma cooperative_env_ok: "cooperative env_ok"
  unfolding cooperative_def
proof (intro allI)
  fix h c
  show "if is_goto c
        then (\<exists>v. respond env_ok h c = Inr v \<and> is_resp v) \<or>
             (\<exists>msg. respond env_ok h c = Inl (PyppeteerTimeoutError msg))
        else (\<exists>v. respond env_ok h c = Inr v)"
    by (cases c) (simp_all add: env_ok_def lib_ok_def is_resp_def)
qed

lemma sync_render:
  "trace (snd (snd (request env_ok (PStr ''http://a'') PNone (PFun False 0) sync_kwargs state0))) =
     [AwaitLauncher (launcher (fst state0)), NewPage (PObj 1),
      SetUserAgent (PObj 2) (PStr default_ua), SetViewport (PObj 2) (PInt 800) (PInt 600),
      SetRequestInterception (PObj 2) True]"
  unfolding request_def Let_def state0_eq
  by (simp add: run_simps env_simps sync_kwargs_def)

text \<open>
  Claim C6. With interception enabled and a handler that is not a coroutine function (a
  synchronous callable in particular), \<^verbatim>\<open>request\<close> raises, in every environment and from
  every state, and \<^verbatim>\<open>page.goto\<close> is not among the calls it has made; when
  \<^verbatim>\<open>page_width\<close> and \<^verbatim>\<open>page_height\<close> are passed and the library calls before that point
  succeed, what it raises is \<^verbatim>\<open>TypeError('callable must be coroutine function.')\<close>.
\<close>

theorem sync_handler_rejected:
  assumes "truthy (pop (rk_enabled_interception kwargs) (PBool False))"
    and "\<not> iscoroutinefunction callable"
  shows "(\<exists>e. fst (request env url ua callable kwargs s) = Inl e) \<and>
         (\<exists>evs. trace (snd (snd (request env url ua callable kwargs s))) =
                  trace (snd s) @ evs \<and> list_all (\<lambda>c. \<not> is_goto c) evs) \<and>
         (cooperative env \<longrightarrow> rk_page_width kwargs \<noteq> None \<longrightarrow>
          rk_page_height kwargs \<noteq> None \<longrightarrow>
            fst (request env url ua callable kwargs s) =
              Inl (TypeError ''callable must be coroutine function.''))"
proof (intro conjI impI)
  from request_halts [OF assms, of env url ua]
  have h: "(\<exists>e. fst (request env url ua callable kwargs s) = Inl e) \<and>
        frame (\<lambda>c. \<not> is_goto c) s (snd (request env url ua callable kwargs s))"
    unfolding halts_def by (rule spec)
  from h show "\<exists>e. fst (request env url ua callable kwargs s) = Inl e" by (rule conjunct1)
  from h show "\<exists>evs. trace (snd (snd (request env url ua callable kwargs s))) =
                  trace (snd s) @ evs \<and> list_all (\<lambda>c. \<not> is_goto c) evs"
    unfolding frame_def by blast
next
  assume "cooperative env" "rk_page_width kwargs \<noteq> None" "rk_page_height kwargs \<noteq> None"
  then have "raises (TypeError ''callable must be coroutine function.'')
           (request env url ua callable kwargs)"
    using assms by (rule request_raises)
  then show "fst (request env url ua callable kwargs s) =
              Inl (TypeError ''callable must be coroutine function.'')"
    unfolding raises_def by (rule spec)
qed

theorem sync_handler_rejected_witness:
  "fst (request env_ok (PStr ''http://a'') PNone (PFun False 0) sync_kwargs state0) =
     Inl (TypeError ''callable must be coroutine function.'') \<and>
   trace (snd (snd (request env_ok (PStr ''http://a'') PNone (PFun False 0) sync_kwargs state0))) =
     [AwaitLauncher (launcher (fst state0)), NewPage (PObj 1),
      SetUserAgent (PObj 2) (PStr default_ua), SetViewport (PObj 2) (PInt 800) (PInt 600),
      SetRequestInterception (PObj 2) True]"
proof -
  have a: "truthy (pop (rk_enabled_interception sync_kwargs) (PBool False))"
    "\<not> iscoroutinefunction (PFun False 0)"
    by (simp_all add: sync_kwargs_def rk_sized_def rk_none_def pop_def iscoroutinefunction_def)
  have b: "rk_page_width sync_kwargs \<noteq> None" "rk_page_height sync_kwargs \<noteq> None"
    by (simp_all add: sync_kwargs_def rk_sized_def rk_none_def)
  note t = sync_handler_rejected [OF a, where env = env_ok and url = "PStr ''http://a''"
      and ua = PNone and s = state0]
  from conjunct2 [OF conjunct2 [OF t]] cooperative_env_ok b
  have "fst (request env_ok (PStr ''http://a'') PNone (PFun False 0) sync_kwargs state0) =
     Inl (TypeError ''callable must be coroutine function.'')" by blast
  then show ?thesis using sync_render by (rule conjI)
qed

subsection \<open>The response after later operations\<close>

lemma preserves_ret [preserves_rules]: "preserves I (ret x)"
  by (simp add: preserves_def ret_def)

lemma preserves_raise [preserves_rules]: "preserves I (raise e)"
  by (simp add: preserves_def raise_def)

lemma preserves_lift [preserves_rules]: "preserves I (lift r)"
  by (simp add: preserves_def lift_def)

lemma preserves_get_self [preserves_rules]: "preserves I get_self"
  by (simp add: preserves_def get_self_def)

lemma preserves_lib [preserves_rules]:
  "(\<And>c w x. I (c, w) \<Longrightarrow> I (c, w\<lparr>trace := trace w @ [x]\<rparr>)) \<Longrightarrow> preserves I (lib env y)"
  unfolding preserves_def
proof (intro allI impI)
  fix s :: state
  assume a: "\<And>c w x. I (c, w) \<Longrightarrow> I (c, w\<lparr>trace := trace w @ [x]\<rparr>)" and "I s"
  then have "I (fst s, snd s)" by simp
  then have "I (fst s, (snd s)\<lparr>trace := trace (snd s) @ [y]\<rparr>)" by (rule a)
  then show "I (snd (lib env y s))" by (simp add: lib_app)
qed

lemma preserves_print [preserves_rules]:
  "(\<And>c w t. I (c, w) \<Longrightarrow> I (c, w\<lparr>stdout := t\<rparr>)) \<Longrightarrow> preserves I (print v)"
  unfolding preserves_def
proof (intro allI impI)
  fix s :: state
  assume a: "\<And>c w t. I (c, w) \<Longrightarrow> I (c, w\<lparr>stdout := t\<rparr>)" and "I s"
  then have "I (fst s, snd s)" by simp
  then have "I (fst s, (snd s)\<lparr>stdout := stdout (snd s) @ [v]\<rparr>)" by (rule a)
  then show "I (snd (print v s))" by (simp add: print_app)
qed

lemma preserves_set_meta_data [preserves_rules]:
  "(\<And>c w d. I (c, w) \<Longrightarrow> I (c, w\<lparr>dicts := d\<rparr>)) \<Longrightarrow> preserves I (set_meta_data k v)"
  unfolding preserves_def
proof (intro allI impI)
  fix s :: state
  assume a: "\<And>c w d. I (c, w) \<Longrightarrow> I (c, w\<lparr>dicts := d\<rparr>)" and "I s"
  then have "I (fst s, snd s)" by simp
  then have "I (fst s, (snd s)\<lparr>dicts := (dicts (snd s))
        (meta_data_ref (fst s) := (dicts (snd s) (meta_data_ref (fst s)))(k \<mapsto> v))\<rparr>)"
    by (rule a)
  then show "I (snd (set_meta_data k v s))" by (simp add: set_meta_data_app)
qed

lemma preserves_enabled_interception [preserves_rules]:
  "(\<And>c w v. I (c, w) \<Longrightarrow> I (c\<lparr>enabled_interception_flag := v\<rparr>, w)) \<Longrightarrow>
   preserves I (enabled_interception v)"
  unfolding preserves_def
proof (intro allI impI)
  fix s :: state
  assume a: "\<And>c w v. I (c, w) \<Longrightarrow> I (c\<lparr>enabled_interception_flag := v\<rparr>, w)" and "I s"
  then have "I (fst s, snd s)" by simp
  then have "I ((fst s)\<lparr>enabled_interception_flag := v\<rparr>, snd s)" by (rule a)
  then show "I (snd (enabled_interception v s))" by (simp add: enabled_interception_app)
qed

lemma preserves_seq [preserves_rules]:
  assumes "preserves I m" and "\<And>a. preserves I (f a)"
  shows "preserves I (seq m f)"
  unfolding preserves_def
proof (intro allI impI)
  fix s :: state
  assume i: "I s"
  obtain r s1 where m: "m s = (r, s1)" by (cases "m s")
  from assms(1) i have "I (snd (m s))" unfolding preserves_def by blast
  with m have i1: "I s1" by simp
  show "I (snd (seq m f s))"
  proof (cases r)
    case (Inl e)
    with m i1 show ?thesis by (simp add: seq_app)
  next
    case (Inr a)
    from assms(2) [of a] i1 have "I (snd (f a s1))" unfolding preserves_def by blast
    with m Inr show ?thesis by (simp add: seq_app)
  qed
qed

lemma preserves_if [preserves_rules]:
  "(c \<Longrightarrow> preserves I a) \<Longrightarrow> (\<not> c \<Longrightarrow> preserves I b) \<Longrightarrow> preserves I (if c then a else b)"
  by simp

lemma preserves_inject [preserves_rules]:
  "(\<And>c w x. I (c, w) \<Longrightarrow> I (c, w\<lparr>trace := trace w @ [x]\<rparr>)) \<Longrightarrow>
   preserves I (inject env page xs)"
proof (induction xs)
  case Nil
  show ?case by (simp add: preserves_ret)
next
  case (Cons x xs)
  have "preserves I (lib env (EvaluateOnNewDocument page x))"
    by (rule preserves_lib) (rule Cons.prems)
  moreover have "preserves I (inject env page xs)" by (rule Cons.IH) (rule Cons.prems)
  ultimately show ?case by (simp add: preserves_seq)
qed

lemma preserves_intercept [preserves_rules]:
  "(\<And>c w x. I (c, w) \<Longrightarrow> I (c, w\<lparr>trace := trace w @ [x]\<rparr>)) \<Longrightarrow>
   preserves I (intercept env page callable)"
  unfolding intercept_def by (intro preserves_rules) simp_all

lemma preserves_harvest [preserves_rules]:
  "(\<And>c w x. I (c, w) \<Longrightarrow> I (c, w\<lparr>trace := trace w @ [x]\<rparr>)) \<Longrightarrow>
   (\<And>c w d. I (c, w) \<Longrightarrow> I (c, w\<lparr>dicts := d\<rparr>)) \<Longrightarrow>
   preserves I (harvest env page response sr)"
  unfolding harvest_def by (intro preserves_rules) simp_all

lemma preserves_handle_request [preserves_rules]:
  "(\<And>c w x. I (c, w) \<Longrightarrow> I (c, w\<lparr>trace := trace w @ [x]\<rparr>)) \<Longrightarrow>
   (\<And>c w t. I (c, w) \<Longrightarrow> I (c, w\<lparr>stdout := t\<rparr>)) \<Longrightarrow>
   preserves I (handle_request env rq)"
  unfolding handle_request_def by (intro preserves_rules) simp_all

lemma preserves_navigate [preserves_rules]:
  assumes "\<And>c w x. I (c, w) \<Longrightarrow> I (c, w\<lparr>trace := trace w @ [x]\<rparr>)"
    and "\<And>c w t. I (c, w) \<Longrightarrow> I (c, w\<lparr>stdout := t\<rparr>)"
  shows "preserves I (navigate env page url)"
  unfolding preserves_def
proof (intro allI impI)
  fix s :: state
  assume "I s"
  then have "I (fst s, snd s)" by simp
  then have 1: "I (fst s, (snd s)\<lparr>trace := trace (snd s) @ [Goto page url 30000 ''load'']\<rparr>)"
    by (rule assms(1))
  then have 2: "I (fst s, (snd s)\<lparr>trace := trace (snd s) @ [Goto page url 30000 ''load''],
      stdout := t\<rparr>)" for t
    using assms(2) [of "fst s" "(snd s)\<lparr>trace := trace (snd s) @ [Goto page url 30000 ''load'']\<rparr>" t]
    by simp
  show "I (snd (navigate env page url s))"
  proof (cases "respond env (trace (snd s)) (Goto page url 30000 ''load'')")
    case (Inr v)
    with 1 show ?thesis by (simp add: navigate_app lib_app)
  next
    case (Inl e)
    with 1 2 show ?thesis
      by (cases e) (simp_all add: navigate_app lib_app seq_app print_app ret_app)
  qed
qed

lemma preserves_close [preserves_rules]:
  assumes "\<And>c w x. I (c, w) \<Longrightarrow> I (c, w\<lparr>trace := trace w @ [x]\<rparr>)"
    and "\<And>c w. I (c, w) \<Longrightarrow> I (c\<lparr>initialized := False\<rparr>, w)"
  shows "preserves I (close env page)"
proof -
  have "preserves I (\<lambda>s. (Inr (), ((fst s)\<lparr>initialized := False\<rparr>, snd s)))"
    unfolding preserves_def
  proof (intro allI impI)
    fix s :: state
    assume "I s"
    then have "I (fst s, snd s)" by simp
    then have "I ((fst s)\<lparr>initialized := False\<rparr>, snd s)" by (rule assms(2))
    then show "I (snd (Inr (), (fst s)\<lparr>initialized := False\<rparr>, snd s))" by simp
  qed
  then show ?thesis unfolding close_def using assms(1) by (intro preserves_rules) simp_all
qed

lemma preserves_PyppeteerResponse [preserves_rules]: "preserves I (PyppeteerResponse (Some a))"
  by (simp add: preserves_def PyppeteerResponse_app)























text \<open>
  The response is not a copy: it holds the controller's own dictionary (lemma
  \<open>request_aliases\<close>). Were the launcher to yield a browser a second time, as in \<open>env_ok\<close>, a
  second render would overwrite what the first response reports.
\<close>

lemma relaunch_overwrites_response:
  "request env_ok (PStr ''http://a'') PNone PNone rk_sized state0 =
     (Inr \<lparr>meta_data = 0\<rparr>, state1) \<and>
   get_status (snd state1) \<lparr>meta_data = 0\<rparr> = PInt 200 \<and>
   fst (request env_ok (PStr ''http://b'') PNone PNone rk_sized state1) =
     Inr \<lparr>meta_data = 0\<rparr> \<and>
   get_status (snd (snd (request env_ok (PStr ''http://b'') PNone PNone rk_sized state1)))
     \<lparr>meta_data = 0\<rparr> = PInt 404"
proof (intro conjI)
  show "request env_ok (PStr ''http://a'') PNone PNone rk_sized state0 =
     (Inr \<lparr>meta_data = 0\<rparr>, state1)"
    unfolding request_def Let_def state0_eq state1_def by (simp add: run_simps env_simps)
  show "get_status (snd state1) \<lparr>meta_data = 0\<rparr> = PInt 200"
    by (simp add: state1_def get_status_def dict_get_def)
  show "fst (request env_ok (PStr ''http://b'') PNone PNone rk_sized state1) =
     Inr \<lparr>meta_data = 0\<rparr>"
    unfolding request_def Let_def state1_def by (simp add: run_simps env_simps)
  show "get_status (snd (snd (request env_ok (PStr ''http://b'') PNone PNone rk_sized state1)))
     \<lparr>meta_data = 0\<rparr> = PInt 404"
    unfolding request_def Let_def state1_def get_status_def dict_get_def
    by (simp add: run_simps env_simps)
qed

lemma env_ok_relaunches: "\<not> await_once env_ok"
proof
  assume "await_once env_ok"
  then have "AwaitLauncher l \<in> set [AwaitLauncher l] \<longrightarrow>
      (\<exists>e. respond env_ok [AwaitLauncher l] (AwaitLauncher l) = Inl e)" for l
    unfolding await_once_def by blast
  then show False by (simp add: env_ok_def lib_ok_def)
qed

end
